theory Spec2Isabelle
  imports Complex_Main
begin

section \<open>Numbers and strings\<close>

text \<open>
  The game is a React component (\<^verbatim>\<open>App.tsx\<close>). Its numbers are JavaScript
  numbers: pixel coordinates, probabilities and the SRS progress are modelled as
  rationals, counters and scores as integers, list lengths and SRS levels as naturals.
  Identifiers and romaji are ASCII strings; displayed Japanese text is a list of UTF-16
  code units, which is what \<^verbatim>\<open>split('')\<close> cuts a string into.
\<close>

type_synonym jtext = "nat list"

text \<open>JavaScript truthiness of an optional string: present and not empty.\<close>

definition truthyS :: "string option \<Rightarrow> bool" where
  "truthyS s = (case s of None \<Rightarrow> False | Some v \<Rightarrow> v \<noteq> [])"

definition truthyT :: "jtext option \<Rightarrow> bool" where
  "truthyT s = (case s of None \<Rightarrow> False | Some v \<Rightarrow> v \<noteq> [])"

section \<open>SRS constants (\<^verbatim>\<open>srs.ts\<close>)\<close>

definition SRS_INTERVALS :: "int list" where
  "SRS_INTERVALS = [0, 1, 3, 7, 14, 30, 60]"

definition SRS_MAX_LEVEL :: nat where
  "SRS_MAX_LEVEL = 6"

definition MASTERY_THRESHOLD :: nat where
  "MASTERY_THRESHOLD = 6"

definition CONFIDENCE_THRESHOLD_DIFFICULT :: int where
  "CONFIDENCE_THRESHOLD_DIFFICULT = 10"

definition CONFIDENCE_THRESHOLD_HESITANT :: int where
  "CONFIDENCE_THRESHOLD_HESITANT = 4"

definition PROGRESS_CONFIDENT :: rat where
  "PROGRESS_CONFIDENT = 1 / 2"

definition PROGRESS_HESITANT :: rat where
  "PROGRESS_HESITANT = 1 / 4"

definition PROGRESS_DIFFICULT :: rat where
  "PROGRESS_DIFFICULT = 0"

section \<open>SRS data (\<^verbatim>\<open>types.ts\<close>) and the SRS update of \<^verbatim>\<open>processInput\<close>\<close>

datatype ConfidenceLevel = confident | hesitant | difficult

text \<open>
  \<^verbatim>\<open>nextReviewSession\<close> is \<^verbatim>\<open>sessionNumber + SRS_INTERVALS[newLevel]\<close>; an index
  outside the table reads \<^verbatim>\<open>undefined\<close> and the sum is NaN, modelled as \<open>None\<close>.
\<close>

record WordSRSData =
  level :: nat
  progress :: rat
  nextReviewSession :: "int option"
  confidentCount :: int
  hesitantCount :: int
  difficultCount :: int
  lastAttemptSession :: int

type_synonym WordSRS = "string \<rightharpoonup> WordSRSData"

definition intervalAt :: "nat \<Rightarrow> int option" where
  "intervalAt l = (if l < length SRS_INTERVALS then Some (SRS_INTERVALS ! l) else None)"

definition defaultSRS :: "int \<Rightarrow> WordSRSData" where
  "defaultSRS sessionNumber =
     \<lparr>level = 0, progress = 0, nextReviewSession = Some 0, confidentCount = 0,
      hesitantCount = 0, difficultCount = 0, lastAttemptSession = sessionNumber\<rparr>"

definition progressGain :: "ConfidenceLevel \<Rightarrow> rat" where
  "progressGain confidence =
     (if confidence = confident then PROGRESS_CONFIDENT
      else if confidence = hesitant then PROGRESS_HESITANT else PROGRESS_DIFFICULT)"

text \<open>The body of the \<^verbatim>\<open>setWordSRS\<close> updater, for the entry \<open>current\<close>.\<close>

definition srsStep :: "int \<Rightarrow> ConfidenceLevel \<Rightarrow> WordSRSData \<Rightarrow> WordSRSData" where
  "srsStep sessionNumber confidence current =
     (let newProgress0 = progress current + progressGain confidence;
          levelUp = (newProgress0 \<ge> 1 \<and> level current < SRS_MAX_LEVEL);
          newLevel = (if levelUp then level current + 1 else level current);
          newProgress = (if levelUp then 0 else newProgress0);
          nextReview = map_option (\<lambda>i. sessionNumber + i) (intervalAt newLevel)
      in \<lparr>level = newLevel,
          progress = min 1 newProgress,
          nextReviewSession = nextReview,
          confidentCount = confidentCount current + (if confidence = confident then 1 else 0),
          hesitantCount = hesitantCount current + (if confidence = hesitant then 1 else 0),
          difficultCount = difficultCount current + (if confidence = difficult then 1 else 0),
          lastAttemptSession = sessionNumber\<rparr>)"

definition updateWordSRS :: "int \<Rightarrow> string \<Rightarrow> ConfidenceLevel \<Rightarrow> WordSRS \<Rightarrow> WordSRS" where
  "updateWordSRS sessionNumber wordId' confidence prev =
     prev(wordId' \<mapsto> srsStep sessionNumber confidence
       (case prev wordId' of Some current \<Rightarrow> current | None \<Rightarrow> defaultSRS sessionNumber))"

text \<open>
  A clear event, as the SRS update sees it: the session it happens in, the catalog item
  and the confidence. A sequence of clears is processed from left to right.
\<close>

type_synonym clearEvent = "int \<times> string \<times> ConfidenceLevel"

fun processClears :: "clearEvent list \<Rightarrow> WordSRS \<Rightarrow> WordSRS" where
  "processClears [] srs = srs"
| "processClears ((sessionNumber, wordId', confidence) # es) srs =
     processClears es (updateWordSRS sessionNumber wordId' confidence srs)"

text \<open>
  What the update keeps true of an entry: the progress is in the closed interval from 0
  to 1, and below 1 as long as the item is below the top level.
\<close>

definition progressInRange :: "WordSRSData \<Rightarrow> bool" where
  "progressInRange d =
     (0 \<le> progress d \<and> progress d \<le> 1 \<and> (level d < SRS_MAX_LEVEL \<longrightarrow> progress d < 1))"

section \<open>The catalog (\<^verbatim>\<open>words.ts\<close>, \<^verbatim>\<open>constants.ts\<close>)\<close>

text \<open>
  The vocabulary and kana tables and the board constants are imported by
  \<^verbatim>\<open>App.tsx\<close> from files that are data only; the model takes them as parameters.
\<close>

record Word =
  w_id :: string
  w_kana :: jtext
  w_kanji :: "jtext option"
  w_romaji :: string
  w_en :: "string option"
  w_morae :: nat
  w_pos :: "string option"

record KanaDef =
  c_char :: jtext
  c_romaji :: string

datatype KanaMode = hiragana | katakana | both | words

datatype Difficulty = slow | normal | fast

record Constants =
  HIRAGANA :: "KanaDef list"
  KATAKANA :: "KanaDef list"
  WORDS :: "Word list"
  COLUMNS :: int
  CELL_SIZE :: rat
  BOARD_HEIGHT :: rat
  SPAWN_INTERVAL_BASE :: rat
  FALL_SPEED_BASE :: rat
  SPEED_MULTIPLIERS :: "Difficulty \<Rightarrow> rat"

section \<open>Blocks and game state (\<^verbatim>\<open>types.ts\<close>)\<close>

text \<open>
  \<^verbatim>\<open>KanaCharacter\<close>, with \<open>kid\<close>, \<open>ktype\<close>, \<open>kx\<close> and \<open>ky\<close> for the fields
  \<^verbatim>\<open>id\<close>, \<^verbatim>\<open>type\<close>, \<^verbatim>\<open>x\<close> and \<^verbatim>\<open>y\<close>. An optional field is an option.
\<close>

datatype KanaType = hiraganaT | katakanaT | wordT

record KanaCharacter =
  kid :: string
  char :: jtext
  romaji :: string
  ktype :: KanaType
  kx :: rat
  ky :: rat
  column :: int
  isDead :: bool
  kanji :: "jtext option"
  en :: "string option"
  wordId :: "string option"
  wordGroupId :: "string option"
  wordRomaji :: "string option"
  wordIndex :: "nat option"
  wordLength :: "nat option"
  pos :: "string option"
  stackedAt :: "int option"
  hintCount :: "int option"

datatype ExplosionType = normalE | confidentE

text \<open>An explosion without its random \<^verbatim>\<open>id\<close>, which only the timed clean-up reads.\<close>

record Explosion =
  e_x :: rat
  e_y :: rat
  e_type :: "ExplosionType option"

text \<open>
  \<^verbatim>\<open>GameState\<close> without \<^verbatim>\<open>souls\<close>, \<^verbatim>\<open>wordPopups\<close>, \<^verbatim>\<open>stats\<close> and
  \<^verbatim>\<open>level\<close>: the code writes them for display and never reads them back in a decision.
  \<^verbatim>\<open>frozenUntil\<close> is a timestamp, 0 when unset.
\<close>

record GameState =
  score :: int
  isActive :: bool
  isGameOver :: bool
  isPaused :: bool
  activeKana :: "KanaCharacter list"
  stackedKana :: "KanaCharacter list"
  explosions :: "Explosion list"
  mode :: KanaMode
  difficulty :: Difficulty
  frozenUntil :: rat
  streak :: int
  isFreezeAbilityActive :: bool

text \<open>The mutable references of the component.\<close>

record Refs =
  lastTime :: "rat option"
  spawnTimer :: rat
  blocksProcessed :: int

section \<open>Spawn scheduler: the review pool of \<^verbatim>\<open>spawnKana\<close>\<close>

definition dueWords :: "Word list \<Rightarrow> WordSRS \<Rightarrow> int \<Rightarrow> Word list" where
  "dueWords ws wordSRS' sessionNumber =
     filter (\<lambda>w. case wordSRS' (w_id w) of
                    None \<Rightarrow> False
                  | Some data \<Rightarrow> level data \<ge> MASTERY_THRESHOLD \<and>
                      (case nextReviewSession data of None \<Rightarrow> False
                                                   | Some n \<Rightarrow> n \<le> sessionNumber)) ws"

definition reviewChance :: "Word list \<Rightarrow> rat" where
  "reviewChance due =
     (if length due > 0 then min (1 / 2) (3 / 10 + of_nat (length due) * (1 / 20)) else 0)"

text \<open>\<^verbatim>\<open>Math.random() < reviewChance\<close>, for the drawn number \<open>roll\<close>.\<close>

definition doReview :: "rat \<Rightarrow> Word list \<Rightarrow> bool" where
  "doReview roll due = (roll < reviewChance due)"

section \<open>Spawn scheduler: difficulty gating and candidate pool of \<^verbatim>\<open>spawnKana\<close>\<close>

definition baseMaxMorae :: "int \<Rightarrow> nat" where
  "baseMaxMorae sc = (if sc < 500 then 2 else if sc < 1000 then 3 else 4)"

text \<open>\<^verbatim>\<open>!wordSRS[w.id] || wordSRS[w.id].level === 0\<close>\<close>

definition unseen :: "WordSRS \<Rightarrow> Word \<Rightarrow> bool" where
  "unseen wordSRS' w = (case wordSRS' (w_id w) of None \<Rightarrow> True | Some d \<Rightarrow> level d = 0)"

text \<open>\<^verbatim>\<open>wordSRS[w.id]?.level || 0\<close>\<close>

definition srsLevelOf :: "WordSRS \<Rightarrow> string \<Rightarrow> nat" where
  "srsLevelOf wordSRS' i = (case wordSRS' i of None \<Rightarrow> 0 | Some d \<Rightarrow> level d)"

text \<open>
  The loop \<^verbatim>\<open>for (let m = 2; m <= 6; m++)\<close> over the remaining values of \<open>m\<close>,
  with its two \<^verbatim>\<open>continue\<close> and its \<^verbatim>\<open>break\<close>.
\<close>

fun progressionLoop :: "Word list \<Rightarrow> WordSRS \<Rightarrow> nat list \<Rightarrow> nat \<Rightarrow> nat" where
  "progressionLoop ws wordSRS' [] maxMorae = maxMorae"
| "progressionLoop ws wordSRS' (m # ms) maxMorae =
     (if m < maxMorae then progressionLoop ws wordSRS' ms maxMorae
      else let wordsAtLevel = filter (\<lambda>w. w_morae w = m) ws in
        if length wordsAtLevel = 0 then progressionLoop ws wordSRS' ms maxMorae
        else let unseeenWords = filter (unseen wordSRS') wordsAtLevel in
          if length unseeenWords = 0
          then progressionLoop ws wordSRS' ms (max maxMorae (m + 1))
          else maxMorae)"

definition computeMaxMorae :: "Word list \<Rightarrow> WordSRS \<Rightarrow> int \<Rightarrow> nat" where
  "computeMaxMorae ws wordSRS' sc = progressionLoop ws wordSRS' [2, 3, 4, 5, 6] (baseMaxMorae sc)"

definition learningPool :: "Word list \<Rightarrow> WordSRS \<Rightarrow> nat \<Rightarrow> Word list" where
  "learningPool ws wordSRS' maxMorae =
     (let eligible = filter (\<lambda>w. w_morae w \<le> maxMorae \<and>
                                 srsLevelOf wordSRS' (w_id w) < MASTERY_THRESHOLD) ws;
          inProgress = filter (\<lambda>w. srsLevelOf wordSRS' (w_id w) > 0) eligible;
          fresh = filter (unseen wordSRS') eligible;
          poolInProgress = (if length fresh > 0 \<and> length inProgress > 10
                            then take 10 inProgress else inProgress);
          candidates = take 15 (poolInProgress @ fresh)
      in if length candidates = 0 then filter (\<lambda>w. w_morae w \<le> maxMorae) ws else candidates)"

text \<open>The candidates in vocabulary mode; \<open>roll\<close> is the number drawn for the review.\<close>

definition wordCandidates :: "Word list \<Rightarrow> WordSRS \<Rightarrow> int \<Rightarrow> int \<Rightarrow> rat \<Rightarrow> Word list" where
  "wordCandidates ws wordSRS' sessionNumber sc roll =
     (let maxMorae = computeMaxMorae ws wordSRS' sc;
          due = dueWords ws wordSRS' sessionNumber;
          candidates = (if doReview roll due then due else [])
      in if length candidates = 0 then learningPool ws wordSRS' maxMorae else candidates)"

section \<open>Spawn scheduler: placement and block creation of \<^verbatim>\<open>spawnKana\<close>\<close>

text \<open>
  \<^verbatim>\<open>list\<close> has type \<^verbatim>\<open>any[]\<close> and holds words or kana; an entry has the fields
  of both, absent ones being \<open>None\<close>.
\<close>

record Entry =
  r_id :: "string option"
  r_char :: "jtext option"
  r_kana :: "jtext option"
  r_kanji :: "jtext option"
  r_romaji :: string
  r_en :: "string option"
  r_pos :: "string option"

definition wordEntry :: "Word \<Rightarrow> Entry" where
  "wordEntry w = \<lparr>r_id = Some (w_id w), r_char = None, r_kana = Some (w_kana w),
     r_kanji = w_kanji w, r_romaji = w_romaji w, r_en = w_en w, r_pos = w_pos w\<rparr>"

definition kanaEntry :: "KanaDef \<Rightarrow> Entry" where
  "kanaEntry c = \<lparr>r_id = None, r_char = Some (c_char c), r_kana = None,
     r_kanji = None, r_romaji = c_romaji c, r_en = None, r_pos = None\<rparr>"

text \<open>
  The results of the calls of \<^verbatim>\<open>Math.random()\<close>, in the order of the source: the
  review roll, the entry, the unused column, the start column, the group id and one id for
  each glyph.
\<close>

record SpawnRandom =
  rReview :: rat
  rEntry :: rat
  rColumn :: rat
  rStart :: rat
  rGroupId :: string
  rIds :: "nat \<Rightarrow> string"

datatype jsError = TypeError

definition candidateList :: "Constants \<Rightarrow> WordSRS \<Rightarrow> int \<Rightarrow> SpawnRandom \<Rightarrow> GameState \<Rightarrow> Entry list" where
  "candidateList C wordSRS' sessionNumber rnd gs =
     (if mode gs = words
      then map wordEntry (wordCandidates (WORDS C) wordSRS' sessionNumber (score gs) (rReview rnd))
      else if mode gs = hiragana then map kanaEntry (HIRAGANA C)
      else if mode gs = katakana then map kanaEntry (KATAKANA C)
      else map kanaEntry (HIRAGANA C @ KATAKANA C))"

text \<open>\<^verbatim>\<open>list[Math.floor(Math.random() * list.length)]\<close>; \<open>None\<close> is \<^verbatim>\<open>undefined\<close>.\<close>

definition pick :: "rat \<Rightarrow> 'a list \<Rightarrow> 'a option" where
  "pick r xs = (let i = \<lfloor>r * of_nat (length xs)\<rfloor>
                in if 0 \<le> i \<and> i < int (length xs) then Some (xs ! nat i) else None)"

definition textToDisplay :: "WordSRS \<Rightarrow> bool \<Rightarrow> Entry \<Rightarrow> jtext option" where
  "textToDisplay wordSRS' isWord randomEntry =
     (let srsLevel = (if isWord \<and> truthyS (r_id randomEntry)
                      then srsLevelOf wordSRS' (the (r_id randomEntry)) else 0);
          showKanji = (isWord \<and> srsLevel \<ge> 2 \<and> truthyT (r_kanji randomEntry))
      in if showKanji then r_kanji randomEntry
         else if isWord then r_kana randomEntry else r_char randomEntry)"

definition startColumnOf :: "Constants \<Rightarrow> SpawnRandom \<Rightarrow> nat \<Rightarrow> int" where
  "startColumnOf C rnd width = \<lfloor>rStart rnd * of_int (COLUMNS C - int width + 1)\<rfloor>"

text \<open>
  \<^verbatim>\<open>Math.floor(k.x / CELL_SIZE)\<close> is infinite or NaN when \<^verbatim>\<open>CELL_SIZE\<close> is 0 and
  then is no needed column.
\<close>

definition hasCollision :: "Constants \<Rightarrow> KanaCharacter list \<Rightarrow> int \<Rightarrow> nat \<Rightarrow> bool" where
  "hasCollision C active startColumn width =
     (let collisionThreshold = CELL_SIZE C * 3;
          columnsNeeded = map (\<lambda>i. startColumn + int i) [0..<width]
      in list_ex (\<lambda>k. CELL_SIZE C \<noteq> 0 \<and> \<lfloor>kx k / CELL_SIZE C\<rfloor> \<in> set columnsNeeded \<and>
                       ky k < collisionThreshold) active)"

definition newKana :: "Constants \<Rightarrow> SpawnRandom \<Rightarrow> bool \<Rightarrow> Entry \<Rightarrow> int \<Rightarrow> nat \<Rightarrow> nat \<Rightarrow> nat \<Rightarrow> KanaCharacter" where
  "newKana C rnd isWord randomEntry startColumn width index' c =
     \<lparr>kid = rIds rnd index',
      char = [c],
      romaji = r_romaji randomEntry,
      ktype = (if isWord then wordT
               else if list_ex (\<lambda>h. Some (c_char h) = r_char randomEntry) (HIRAGANA C)
                    then hiraganaT else katakanaT),
      kx = of_int (startColumn + int index') * CELL_SIZE C,
      ky = - CELL_SIZE C,
      column = startColumn + int index',
      isDead = False,
      kanji = (if isWord then r_kanji randomEntry else None),
      en = (if isWord then r_en randomEntry else None),
      wordId = (if isWord then r_id randomEntry else None),
      wordGroupId = (if isWord then Some (rGroupId rnd) else None),
      wordRomaji = (if isWord then Some (r_romaji randomEntry) else None),
      wordIndex = (if isWord then Some index' else None),
      wordLength = (if isWord then Some width else None),
      pos = (if isWord then r_pos randomEntry else None),
      stackedAt = None,
      hintCount = None\<rparr>"

definition newKanaList :: "Constants \<Rightarrow> SpawnRandom \<Rightarrow> bool \<Rightarrow> Entry \<Rightarrow> int \<Rightarrow> jtext \<Rightarrow> KanaCharacter list" where
  "newKanaList C rnd isWord randomEntry startColumn chars =
     map (\<lambda>(index', c). newKana C rnd isWord randomEntry startColumn (length chars) index' c)
         (zip [0..<length chars] chars)"

text \<open>
  One call of \<^verbatim>\<open>spawnKana\<close>: the new state, and the exception if one is thrown
  (reading a field of an \<^verbatim>\<open>undefined\<close> entry or text), in which case nothing is written.
\<close>

definition spawnKana :: "Constants \<Rightarrow> WordSRS \<Rightarrow> int \<Rightarrow> SpawnRandom \<Rightarrow> GameState \<Rightarrow> GameState \<times> jsError option" where
  "spawnKana C wordSRS' sessionNumber rnd gs =
     (case pick (rEntry rnd) (candidateList C wordSRS' sessionNumber rnd gs) of
        None \<Rightarrow> (gs, Some TypeError)
      | Some randomEntry \<Rightarrow>
         (let isWord = (mode gs = words) in
          case textToDisplay wordSRS' isWord randomEntry of
            None \<Rightarrow> (gs, Some TypeError)
          | Some chars \<Rightarrow>
             (let width = length chars;
                  maxColumn = COLUMNS C - int width
              in if maxColumn < 0 then (gs, None)
                 else let startColumn = startColumnOf C rnd width in
                   if hasCollision C (activeKana gs) startColumn width then (gs, None)
                   else (gs\<lparr>activeKana := activeKana gs @
                              newKanaList C rnd isWord randomEntry startColumn chars\<rparr>, None))))"

section \<open>Grouping blocks by \<^verbatim>\<open>wordGroupId || id\<close>\<close>

definition groupKey :: "KanaCharacter \<Rightarrow> string" where
  "groupKey k = (if truthyS (wordGroupId k) then the (wordGroupId k) else kid k)"

text \<open>
  \<^verbatim>\<open>if (!groups[key]) groups[key] = []; groups[key].push(k)\<close> on the list of the
  entries of the object, in the order in which the keys were created.
\<close>

fun pushGroup :: "string \<Rightarrow> KanaCharacter \<Rightarrow> (string \<times> KanaCharacter list) list \<Rightarrow> (string \<times> KanaCharacter list) list" where
  "pushGroup key k [] = [(key, [k])]"
| "pushGroup key k ((g, members) # rest) =
     (if g = key then (g, members @ [k]) # rest else (g, members) # pushGroup key k rest)"

text \<open>
  \<^verbatim>\<open>Object.values\<close> and \<^verbatim>\<open>Object.entries\<close> list the keys that are array indices
  first, in ascending numeric order, and then the other keys in creation order.
\<close>

definition isDigit :: "char \<Rightarrow> bool" where
  "isDigit c = (48 \<le> (of_char c :: nat) \<and> (of_char c :: nat) \<le> 57)"

definition decimalValue :: "string \<Rightarrow> nat" where
  "decimalValue s = foldl (\<lambda>n c. 10 * n + ((of_char c :: nat) - 48)) 0 s"

definition isArrayIndex :: "string \<Rightarrow> bool" where
  "isArrayIndex s = (s \<noteq> [] \<and> list_all isDigit s \<and> (s = ''0'' \<or> hd s \<noteq> CHR ''0'') \<and>
                     decimalValue s < 2 ^ 32 - 1)"

definition ownKeysOrder :: "(string \<times> 'a) list \<Rightarrow> (string \<times> 'a) list" where
  "ownKeysOrder entries =
     sort_key (\<lambda>e. decimalValue (fst e)) (filter (\<lambda>e. isArrayIndex (fst e)) entries) @
     filter (\<lambda>e. \<not> isArrayIndex (fst e)) entries"

definition groupsOf :: "KanaCharacter list \<Rightarrow> (string \<times> KanaCharacter list) list" where
  "groupsOf ks = ownKeysOrder (foldl (\<lambda>groups k. pushGroup (groupKey k) k groups) [] ks)"

section \<open>Fall and collision: the state updater of \<^verbatim>\<open>update\<close>\<close>

definition currentSpeedOf :: "Constants \<Rightarrow> GameState \<Rightarrow> rat" where
  "currentSpeedOf C prev =
     (let baseSpeed = FALL_SPEED_BASE C * SPEED_MULTIPLIERS C (difficulty prev)
      in if mode prev = words then baseSpeed else baseSpeed + of_int (score prev) / 800)"

definition topOfStack :: "Constants \<Rightarrow> KanaCharacter list \<Rightarrow> int \<Rightarrow> rat" where
  "topOfStack C stacked col =
     (let columnStack = filter (\<lambda>s. column s = col) stacked
      in if length columnStack > 0 then Min (set (map ky columnStack)) else BOARD_HEIGHT C)"

text \<open>The first loop over the group, which sets \<^verbatim>\<open>collision\<close> and breaks.\<close>

definition collision :: "Constants \<Rightarrow> rat \<Rightarrow> KanaCharacter list \<Rightarrow> KanaCharacter list \<Rightarrow> bool" where
  "collision C currentSpeed stacked grp =
     list_ex (\<lambda>kana. ky kana + currentSpeed + CELL_SIZE C \<ge> topOfStack C stacked (column kana)) grp"

definition minTargetY :: "Constants \<Rightarrow> KanaCharacter list \<Rightarrow> KanaCharacter list \<Rightarrow> rat" where
  "minTargetY C stacked grp =
     foldl (\<lambda>m kana. min m (topOfStack C stacked (column kana) - CELL_SIZE C))
           (BOARD_HEIGHT C * 2) grp"

text \<open>The variables that the loop over the groups writes.\<close>

record FallAcc =
  nextActiveKana :: "KanaCharacter list"
  nextStackedKana :: "KanaCharacter list"
  prevScore :: int
  triggeredGameOver :: bool
  streakReset :: bool

text \<open>The body of the second \<^verbatim>\<open>group.forEach\<close>: one block lands.\<close>

definition landKana :: "rat \<Rightarrow> int \<Rightarrow> FallAcc \<Rightarrow> KanaCharacter \<Rightarrow> FallAcc" where
  "landKana targetY processed acc kana =
     acc\<lparr>nextStackedKana := nextStackedKana acc @ [kana\<lparr>ky := targetY, stackedAt := Some processed\<rparr>],
         streakReset := True,
         prevScore := max 0 (prevScore acc - 5)\<rparr>"

definition fallGroup :: "Constants \<Rightarrow> rat \<Rightarrow> int \<Rightarrow> FallAcc \<Rightarrow> KanaCharacter list \<Rightarrow> FallAcc" where
  "fallGroup C currentSpeed processed acc grp =
     (if collision C currentSpeed (nextStackedKana acc) grp
      then let targetY = minTargetY C (nextStackedKana acc) grp;
               acc' = foldl (landKana targetY processed) acc grp
           in if targetY \<le> 0 then acc'\<lparr>triggeredGameOver := True\<rparr> else acc'
      else acc\<lparr>nextActiveKana := nextActiveKana acc @
                  map (\<lambda>kana. kana\<lparr>ky := ky kana + currentSpeed\<rparr>) grp\<rparr>)"

definition fallGroups :: "Constants \<Rightarrow> rat \<Rightarrow> int \<Rightarrow> FallAcc \<Rightarrow> KanaCharacter list list \<Rightarrow> FallAcc" where
  "fallGroups C currentSpeed processed acc groups =
     foldl (fallGroup C currentSpeed processed) acc groups"

definition fallStart :: "GameState \<Rightarrow> FallAcc" where
  "fallStart prev = \<lparr>nextActiveKana = [], nextStackedKana = stackedKana prev,
     prevScore = score prev, triggeredGameOver = False, streakReset = False\<rparr>"

section \<open>Gravity for stacked blocks\<close>

definition fallDistance :: "Constants \<Rightarrow> KanaCharacter list \<Rightarrow> KanaCharacter \<Rightarrow> rat" where
  "fallDistance C updatedStackedKana kana =
     (let blocksBelow = filter (\<lambda>s. column s = column kana \<and> ky s > ky kana) updatedStackedKana;
          floorY = (if length blocksBelow > 0 then Min (set (map ky blocksBelow))
                    else BOARD_HEIGHT C);
          targetY = floorY - CELL_SIZE C
      in targetY - ky kana)"

text \<open>\<^verbatim>\<open>minFallDistance\<close> starts at \<^verbatim>\<open>Infinity\<close>, which is \<open>None\<close> here.\<close>

definition minFallDistance :: "Constants \<Rightarrow> KanaCharacter list \<Rightarrow> KanaCharacter list \<Rightarrow> rat option" where
  "minFallDistance C updatedStackedKana grp =
     foldl (\<lambda>m kana. case m of None \<Rightarrow> Some (fallDistance C updatedStackedKana kana)
                             | Some v \<Rightarrow> Some (min v (fallDistance C updatedStackedKana kana)))
           None grp"

definition gravityStep :: "Constants \<Rightarrow> rat \<Rightarrow> KanaCharacter list \<Rightarrow> KanaCharacter list \<Rightarrow> rat" where
  "gravityStep C currentSpeed updatedStackedKana grp =
     (case minFallDistance C updatedStackedKana grp of
        None \<Rightarrow> currentSpeed | Some d \<Rightarrow> min d currentSpeed)"

text \<open>The accumulator is \<^verbatim>\<open>updatedStackedKana\<close> and \<^verbatim>\<open>processedGroupIds\<close>.\<close>

definition gravityGroup :: "Constants \<Rightarrow> rat \<Rightarrow> KanaCharacter list \<times> string list \<Rightarrow> string \<times> KanaCharacter list \<Rightarrow> KanaCharacter list \<times> string list" where
  "gravityGroup C currentSpeed acc entry =
     (let updatedStackedKana = fst acc; processedGroupIds = snd acc;
          groupId = fst entry; grp = snd entry
      in if groupId \<in> set processedGroupIds then acc
         else let step = gravityStep C currentSpeed updatedStackedKana grp
              in (updatedStackedKana @ map (\<lambda>kana. kana\<lparr>ky := ky kana + max 0 step\<rparr>) grp,
                  groupId # processedGroupIds))"

text \<open>
  The sort puts the group with the larger greatest \<^verbatim>\<open>y\<close> first and is stable.
\<close>

definition sortedGroups :: "(string \<times> KanaCharacter list) list \<Rightarrow> (string \<times> KanaCharacter list) list" where
  "sortedGroups stackedGroups = sort_key (\<lambda>e. - Max (set (map ky (snd e)))) stackedGroups"

definition gravity :: "Constants \<Rightarrow> rat \<Rightarrow> KanaCharacter list \<Rightarrow> KanaCharacter list" where
  "gravity C currentSpeed stacked =
     fst (foldl (gravityGroup C currentSpeed) ([], []) (sortedGroups (groupsOf stacked)))"

text \<open>The updater \<^verbatim>\<open>setGameState(prev => ...)\<close> of \<^verbatim>\<open>update\<close>.\<close>

definition physics :: "Constants \<Rightarrow> int \<Rightarrow> GameState \<Rightarrow> GameState" where
  "physics C processed prev =
     (let currentSpeed = currentSpeedOf C prev;
          acc = fallGroups C currentSpeed processed (fallStart prev)
                  (map snd (groupsOf (activeKana prev)))
      in prev\<lparr>activeKana := nextActiveKana acc,
              stackedKana := gravity C currentSpeed (nextStackedKana acc),
              isGameOver := triggeredGameOver acc,
              isActive := \<not> triggeredGameOver acc,
              score := max 0 (prevScore acc),
              streak := (if streakReset acc then 0 else streak prev)\<rparr>)"

section \<open>The tick: \<^verbatim>\<open>update\<close>\<close>

text \<open>
  The part of \<^verbatim>\<open>update\<close> before the physics, for a tick that passed the guards:
  the freeze flag, the spawn timer and the spawn. An exception of \<^verbatim>\<open>spawnKana\<close>
  leaves \<^verbatim>\<open>update\<close> before the timer is reset.
\<close>

definition spawnPhase :: "Constants \<Rightarrow> WordSRS \<Rightarrow> int \<Rightarrow> SpawnRandom \<Rightarrow> rat \<Rightarrow> Refs \<Rightarrow> GameState \<Rightarrow> Refs \<times> GameState \<times> jsError option" where
  "spawnPhase C wordSRS' sessionNumber rnd deltaTime r gs =
     (let gs1 = (if isFreezeAbilityActive gs then gs\<lparr>isFreezeAbilityActive := False\<rparr> else gs);
          r1 = r\<lparr>spawnTimer := spawnTimer r + deltaTime\<rparr>;
          crowdingFactor = max 0 (int (length (activeKana gs) + length (stackedKana gs)) - 5) * 200;
          currentSpawnInterval = max 600 (SPAWN_INTERVAL_BASE C + of_int crowdingFactor
                                           - of_int (score gs * 5))
      in if spawnTimer r1 > currentSpawnInterval
         then (case spawnKana C wordSRS' sessionNumber rnd gs1 of
                 (gs2, Some e) \<Rightarrow> (r1, gs2, Some e)
               | (gs2, None) \<Rightarrow> (r1\<lparr>spawnTimer := 0\<rparr>, gs2, None))
         else (r1, gs1, None))"

text \<open>
  \<^verbatim>\<open>update(time)\<close>; \<open>now\<close> is \<^verbatim>\<open>Date.now()\<close>. A missing or zero
  \<^verbatim>\<open>lastTimeRef.current\<close> makes the call a warm-up.
\<close>

definition update :: "Constants \<Rightarrow> WordSRS \<Rightarrow> int \<Rightarrow> SpawnRandom \<Rightarrow> rat \<Rightarrow> rat \<Rightarrow> Refs \<Rightarrow> GameState \<Rightarrow> Refs \<times> GameState \<times> jsError option" where
  "update C wordSRS' sessionNumber rnd time now r gs =
     (case lastTime r of
        None \<Rightarrow> (r\<lparr>lastTime := Some time\<rparr>, gs, None)
      | Some lastT \<Rightarrow>
         if lastT = 0 then (r\<lparr>lastTime := Some time\<rparr>, gs, None)
         else let deltaTime = time - lastT;
                  r0 = r\<lparr>lastTime := Some time\<rparr>
              in if \<not> isActive gs \<or> isGameOver gs \<or> isPaused gs then (r0, gs, None)
                 else if frozenUntil gs \<noteq> 0 \<and> now < frozenUntil gs then (r0, gs, None)
                 else (case spawnPhase C wordSRS' sessionNumber rnd deltaTime r0 gs of
                         (r1, gs1, Some e) \<Rightarrow> (r1, gs1, Some e)
                       | (r1, gs1, None) \<Rightarrow> (r1, physics C (blocksProcessed r1) gs1, None)))"

section \<open>Match and clear: \<^verbatim>\<open>processInput\<close>\<close>

definition findMatch :: "KanaCharacter list \<Rightarrow> string \<Rightarrow> KanaCharacter option" where
  "findMatch allVisible val =
     (case find (\<lambda>k. ktype k \<noteq> wordT \<and> romaji k = val) allVisible of
        Some m \<Rightarrow> Some m
      | None \<Rightarrow> find (\<lambda>k. ktype k = wordT \<and> wordRomaji k = Some val) allVisible)"

text \<open>\<^verbatim>\<open>ks.some(k => k.id === i)\<close>\<close>

definition hasId :: "string \<Rightarrow> KanaCharacter list \<Rightarrow> bool" where
  "hasId i ks = list_ex (\<lambda>k. kid k = i) ks"

text \<open>
  The confidence of a clear, from the counter \<^verbatim>\<open>blocksProcessedRef.current\<close>, from
  whether the match is in \<^verbatim>\<open>stackedKana\<close> and from the matched block.
\<close>

definition classifyConfidence :: "int \<Rightarrow> bool \<Rightarrow> KanaCharacter \<Rightarrow> ConfidenceLevel" where
  "classifyConfidence processed isStacked match =
     (let hintCount' = (case hintCount match of None \<Rightarrow> 0 | Some h \<Rightarrow> h)
      in if hintCount' \<ge> 3 then difficult
         else if hintCount' \<ge> 1 then hesitant
         else if isStacked then
           (let blocksAfter = processed - (case stackedAt match of None \<Rightarrow> 0 | Some v \<Rightarrow> v)
            in if blocksAfter \<ge> CONFIDENCE_THRESHOLD_DIFFICULT then difficult
               else if blocksAfter \<ge> CONFIDENCE_THRESHOLD_HESITANT then hesitant
               else confident)
         else confident)"

text \<open>The guards around the SRS update.\<close>

definition updatesSRS :: "KanaCharacter \<Rightarrow> bool" where
  "updatesSRS match =
     (ktype match = wordT \<and> truthyT (kanji match) \<and> truthyS (en match) \<and> truthyS (wordId match))"

definition explosionAt :: "ExplosionType option \<Rightarrow> KanaCharacter \<Rightarrow> Explosion" where
  "explosionAt t k = \<lparr>e_x = kx k, e_y = ky k, e_type = t\<rparr>"

text \<open>
  The identifiers to remove are collected in a list (the source uses a set and only asks
  for membership), next to the new explosions.
\<close>

definition groupClear :: "KanaCharacter list \<Rightarrow> KanaCharacter list \<Rightarrow> KanaCharacter \<Rightarrow> string list \<times> Explosion list" where
  "groupClear allVisible stacked match =
     (if truthyS (wordGroupId match)
      then let groupMembers = filter (\<lambda>k. wordGroupId k = wordGroupId match) allVisible;
               anyStacked = list_ex (\<lambda>k. hasId (kid k) stacked) groupMembers;
               explosionType = (if anyStacked then normalE else confidentE)
           in (map kid groupMembers, map (explosionAt (Some explosionType)) groupMembers)
      else ([kid match], [explosionAt None match]))"

text \<open>The set \<^verbatim>\<open>matchingGroups\<close>, in the order in which its elements were added.\<close>

definition matchingGroups :: "KanaCharacter list \<Rightarrow> KanaCharacter \<Rightarrow> string list" where
  "matchingGroups allVisible match =
     rev (remdups (rev (map (\<lambda>k. the (wordGroupId k))
       (filter (\<lambda>k. truthyS (wordGroupId k))
         (filter (\<lambda>k. wordId k = wordId match) allVisible)))))"

definition chainGroup :: "KanaCharacter list \<Rightarrow> KanaCharacter \<Rightarrow> string list \<times> Explosion list \<Rightarrow> string \<Rightarrow> string list \<times> Explosion list" where
  "chainGroup allVisible match acc groupId =
     (if Some groupId = wordGroupId match then acc
      else let groupMembers = filter (\<lambda>k. wordGroupId k = Some groupId) allVisible
           in (fst acc @ map kid groupMembers, snd acc @ map (explosionAt None) groupMembers))"

definition chainClear :: "KanaCharacter list \<Rightarrow> KanaCharacter \<Rightarrow> string list \<times> Explosion list \<Rightarrow> string list \<times> Explosion list" where
  "chainClear allVisible match acc =
     foldl (chainGroup allVisible match) acc (matchingGroups allVisible match)"

definition isNeighbor :: "KanaCharacter \<Rightarrow> rat \<Rightarrow> rat \<Rightarrow> bool" where
  "isNeighbor k targetX targetY = (\<bar>kx k - targetX\<bar> < 5 \<and> \<bar>ky k - targetY\<bar> < 5)"

definition neighbors :: "Constants \<Rightarrow> KanaCharacter \<Rightarrow> (rat \<times> rat) list" where
  "neighbors C match =
     [(kx match, ky match - CELL_SIZE C),
      (kx match - CELL_SIZE C, ky match),
      (kx match + CELL_SIZE C, ky match)]"

text \<open>The accumulator also holds \<^verbatim>\<open>processedWordGroups\<close>.\<close>

definition neighborHit :: "KanaCharacter list \<Rightarrow> KanaCharacter \<Rightarrow> string list \<times> Explosion list \<times> string list \<Rightarrow> rat \<times> rat \<Rightarrow> string list \<times> Explosion list \<times> string list" where
  "neighborHit stacked k acc n =
     (let ids = fst acc; ex = fst (snd acc); processedWordGroups = snd (snd acc)
      in if isNeighbor k (fst n) (snd n)
         then if truthyS (wordGroupId k) \<and> the (wordGroupId k) \<notin> set processedWordGroups
              then let groupMembers = filter (\<lambda>m. wordGroupId m = wordGroupId k) stacked
                   in (ids @ map kid groupMembers, ex @ map (explosionAt None) groupMembers,
                       the (wordGroupId k) # processedWordGroups)
              else if \<not> truthyS (wordGroupId k)
              then (ids @ [kid k], ex @ [explosionAt None k], processedWordGroups)
              else acc
         else acc)"

definition neighborClear :: "Constants \<Rightarrow> KanaCharacter list \<Rightarrow> KanaCharacter \<Rightarrow> string list \<times> Explosion list \<Rightarrow> string list \<times> Explosion list" where
  "neighborClear C stacked match acc =
     (let res = foldl (\<lambda>a k. foldl (neighborHit stacked k) a (neighbors C match))
                      (fst acc, snd acc, []) stacked
      in (fst res, fst (snd res)))"

text \<open>\<^verbatim>\<open>toRemoveIds\<close> and \<^verbatim>\<open>newExplosions\<close> of one call.\<close>

definition clearSet :: "Constants \<Rightarrow> KanaCharacter list \<Rightarrow> KanaCharacter list \<Rightarrow> KanaCharacter \<Rightarrow> string list \<times> Explosion list" where
  "clearSet C active stacked match =
     (let allVisible = active @ stacked;
          acc = groupClear allVisible stacked match;
          isStacked = hasId (kid match) stacked
      in if ktype match = wordT \<and> truthyS (wordId match) then chainClear allVisible match acc
         else if isStacked then neighborClear C stacked match acc
         else acc)"

definition totalPoints :: "KanaCharacter \<Rightarrow> bool \<Rightarrow> int \<Rightarrow> nat \<Rightarrow> int" where
  "totalPoints match isEarlyGuess newStreak explosionCount =
     (let isWordType = (ktype match = wordT);
          streakMultiplier = (if isWordType then 2 else 5);
          basePointValue = (if isWordType then 3 else 10);
          explosionValue = (if isWordType then 1 else 5);
          streakBonus = (if isEarlyGuess then newStreak * streakMultiplier else 0);
          multiplier = (if isEarlyGuess then 3 / 2 else (1 :: rat));
          basePoints = basePointValue + (int explosionCount - 1) * explosionValue
      in \<lfloor>of_int basePoints * multiplier\<rfloor> + streakBonus)"

text \<open>The state of the component that the core reads and writes.\<close>

record App =
  refs :: Refs
  wordSRS :: WordSRS
  gameState :: GameState

text \<open>\<^verbatim>\<open>processInput(val)\<close>; \<open>now\<close> is \<^verbatim>\<open>Date.now()\<close>.\<close>

definition processInput :: "Constants \<Rightarrow> int \<Rightarrow> string \<Rightarrow> rat \<Rightarrow> App \<Rightarrow> App" where
  "processInput C sessionNumber val now a =
     (let gs = gameState a in
      case findMatch (activeKana gs @ stackedKana gs) val of
        None \<Rightarrow> a
      | Some match \<Rightarrow>
         (let isEarlyGuess = hasId (kid match) (activeKana gs);
              isStacked = hasId (kid match) (stackedKana gs);
              confidence = classifyConfidence (blocksProcessed (refs a)) isStacked match;
              cleared = clearSet C (activeKana gs) (stackedKana gs) match;
              toRemoveIds = fst cleared;
              newExplosions = snd cleared;
              newStreak = (if isEarlyGuess then streak gs + 1 else streak gs)
          in \<lparr>refs = (if updatesSRS match
                       then (refs a)\<lparr>blocksProcessed := blocksProcessed (refs a) + 1\<rparr>
                       else refs a),
              wordSRS = (if updatesSRS match
                         then updateWordSRS sessionNumber (the (wordId match)) confidence (wordSRS a)
                         else wordSRS a),
              gameState = gs\<lparr>activeKana := filter (\<lambda>k. kid k \<notin> set toRemoveIds) (activeKana gs),
                             stackedKana := filter (\<lambda>k. kid k \<notin> set toRemoveIds) (stackedKana gs),
                             explosions := explosions gs @ newExplosions,
                             score := score gs + totalPoints match isEarlyGuess newStreak
                                                  (length newExplosions),
                             streak := newStreak,
                             frozenUntil := now + 750\<rparr>\<rparr>))"

section \<open>The other handlers, and runs of the component\<close>

definition initialGameState :: "KanaMode \<Rightarrow> GameState" where
  "initialGameState m =
     \<lparr>score = 0, isActive = False, isGameOver = False, isPaused = False, activeKana = [],
      stackedKana = [], explosions = [], mode = m, difficulty = slow, frozenUntil = 0,
      streak = 0, isFreezeAbilityActive = False\<rparr>"

definition initialApp :: "KanaMode \<Rightarrow> WordSRS \<Rightarrow> App" where
  "initialApp m srs =
     \<lparr>refs = \<lparr>lastTime = None, spawnTimer = 0, blocksProcessed = 0\<rparr>,
      wordSRS = srs, gameState = initialGameState m\<rparr>"

definition startGame :: "KanaMode \<Rightarrow> Difficulty \<Rightarrow> App \<Rightarrow> App" where
  "startGame m d a =
     a\<lparr>gameState :=
         \<lparr>score = 0, isActive = True, isGameOver = False, isPaused = False, activeKana = [],
          stackedKana = [], explosions = [], mode = m, difficulty = d, frozenUntil = 0,
          streak = 0, isFreezeAbilityActive = False\<rparr>,
       refs := (refs a)\<lparr>lastTime := None, spawnTimer := 0\<rparr>\<rparr>"

definition stopGame :: "App \<Rightarrow> App" where
  "stopGame a = a\<lparr>gameState := (gameState a)\<lparr>isActive := False, isPaused := False\<rparr>\<rparr>"

definition flipPause :: "App \<Rightarrow> App" where
  "flipPause a =
     (let nowPaused = \<not> isPaused (gameState a)
      in a\<lparr>gameState := (gameState a)\<lparr>isPaused := nowPaused\<rparr>,
           refs := (if \<not> nowPaused then (refs a)\<lparr>lastTime := None\<rparr> else refs a)\<rparr>)"

definition togglePause :: "App \<Rightarrow> App" where
  "togglePause a =
     (if \<not> isActive (gameState a) \<or> isGameOver (gameState a) then a else flipPause a)"

definition spacePause :: "App \<Rightarrow> App" where
  "spacePause a =
     (if \<not> isActive (gameState a) \<and> \<not> isPaused (gameState a) then a
      else if isGameOver (gameState a) then a else flipPause a)"

definition setPaused :: "bool \<Rightarrow> App \<Rightarrow> App" where
  "setPaused b a = a\<lparr>gameState := (gameState a)\<lparr>isPaused := b\<rparr>\<rparr>"

definition handleWordClick :: "KanaCharacter \<Rightarrow> App \<Rightarrow> App" where
  "handleWordClick kana a =
     (if ktype kana \<noteq> wordT \<or> \<not> truthyS (wordId kana) then a else setPaused True a)"

definition hiraganaToggle :: "App \<Rightarrow> App" where
  "hiraganaToggle a =
     (if isActive (gameState a) then a
      else a\<lparr>gameState := (gameState a)\<lparr>mode :=
             (case mode (gameState a) of words \<Rightarrow> hiragana | katakana \<Rightarrow> both
                                       | both \<Rightarrow> katakana | hiragana \<Rightarrow> hiragana)\<rparr>\<rparr>)"

definition katakanaToggle :: "App \<Rightarrow> App" where
  "katakanaToggle a =
     (if isActive (gameState a) then a
      else a\<lparr>gameState := (gameState a)\<lparr>mode :=
             (case mode (gameState a) of words \<Rightarrow> katakana | hiragana \<Rightarrow> both
                                       | both \<Rightarrow> hiragana | katakana \<Rightarrow> katakana)\<rparr>\<rparr>)"

definition wordsToggle :: "App \<Rightarrow> App" where
  "wordsToggle a =
     (if isActive (gameState a) then a else a\<lparr>gameState := (gameState a)\<lparr>mode := words\<rparr>\<rparr>)"

definition freezeAbility :: "rat \<Rightarrow> App \<Rightarrow> App" where
  "freezeAbility now a =
     (let gs = gameState a
      in if isActive gs \<and> \<not> isGameOver gs \<and> score gs \<ge> 150 \<and> \<not> isPaused gs
         then a\<lparr>gameState := gs\<lparr>score := score gs - 150, frozenUntil := now + 10000,
                                 isFreezeAbilityActive := True\<rparr>\<rparr>
         else a)"

text \<open>
  One tick of the host loop: \<^verbatim>\<open>update\<close> on the state of the component. The events
  below are the handlers that write the game state; the timed clean-ups of explosions and
  popups only filter those two lists and are left out.
\<close>

definition tick :: "Constants \<Rightarrow> int \<Rightarrow> SpawnRandom \<Rightarrow> rat \<Rightarrow> rat \<Rightarrow> App \<Rightarrow> App" where
  "tick C sessionNumber rnd time now a =
     (let res = update C (wordSRS a) sessionNumber rnd time now (refs a) (gameState a)
      in a\<lparr>refs := fst res, gameState := fst (snd res)\<rparr>)"

datatype Event =
    StartGame KanaMode Difficulty
  | StopGame
  | TogglePause
  | SpacePause
  | Tick SpawnRandom rat rat
  | Input string rat
  | WordClick KanaCharacter
  | EditMnemonic
  | CloseMnemonic
  | HiraganaToggle
  | KatakanaToggle
  | WordsToggle
  | FreezeAbility rat

fun step :: "Constants \<Rightarrow> int \<Rightarrow> App \<Rightarrow> Event \<Rightarrow> App" where
  "step C sessionNumber a (StartGame m d) = startGame m d a"
| "step C sessionNumber a StopGame = stopGame a"
| "step C sessionNumber a TogglePause = togglePause a"
| "step C sessionNumber a SpacePause = spacePause a"
| "step C sessionNumber a (Tick rnd time now) = tick C sessionNumber rnd time now a"
| "step C sessionNumber a (Input val now) = processInput C sessionNumber val now a"
| "step C sessionNumber a (WordClick kana) = handleWordClick kana a"
| "step C sessionNumber a EditMnemonic = setPaused True a"
| "step C sessionNumber a CloseMnemonic = setPaused False a"
| "step C sessionNumber a HiraganaToggle = hiraganaToggle a"
| "step C sessionNumber a KatakanaToggle = katakanaToggle a"
| "step C sessionNumber a WordsToggle = wordsToggle a"
| "step C sessionNumber a (FreezeAbility now) = freezeAbility now a"

definition run :: "Constants \<Rightarrow> int \<Rightarrow> App \<Rightarrow> Event list \<Rightarrow> App" where
  "run C sessionNumber a events = foldl (step C sessionNumber) a events"

section \<open>Notions used in the statements\<close>

text \<open>\<^verbatim>\<open>match.hintCount || 0\<close> and \<^verbatim>\<open>match.stackedAt || 0\<close>\<close>

definition hintUses :: "KanaCharacter \<Rightarrow> int" where
  "hintUses k = (case hintCount k of None \<Rightarrow> 0 | Some h \<Rightarrow> h)"

definition landedAt :: "KanaCharacter \<Rightarrow> int" where
  "landedAt k = (case stackedAt k of None \<Rightarrow> 0 | Some v \<Rightarrow> v)"

text \<open>
  The difficulty gating in the words of the specification, with what the code adds: the
  tiers visited are those from the baseline up to 6 that have a catalog item; the tier is
  raised past each of them in turn as long as all its items have been seen.
\<close>

definition wordsAtTier :: "Word list \<Rightarrow> nat \<Rightarrow> Word list" where
  "wordsAtTier ws m = filter (\<lambda>w. w_morae w = m) ws"

definition allSeenAt :: "Word list \<Rightarrow> WordSRS \<Rightarrow> nat \<Rightarrow> bool" where
  "allSeenAt ws wordSRS' m = list_all (\<lambda>w. srsLevelOf wordSRS' (w_id w) > 0) (wordsAtTier ws m)"

definition scannedTiers :: "Word list \<Rightarrow> nat \<Rightarrow> nat list" where
  "scannedTiers ws base = filter (\<lambda>m. base \<le> m \<and> wordsAtTier ws m \<noteq> []) [2, 3, 4, 5, 6]"

definition gatingSpec :: "Word list \<Rightarrow> WordSRS \<Rightarrow> nat \<Rightarrow> nat" where
  "gatingSpec ws wordSRS' base =
     (case takeWhile (allSeenAt ws wordSRS') (scannedTiers ws base) of
        [] \<Rightarrow> base
      | t # ts \<Rightarrow> last (t # ts) + 1)"

text \<open>
  The landing row in the words of the specification: the least, over the blocks of the
  group, of the top of the stack in the block's column minus one cell.
\<close>

definition uniformRow :: "Constants \<Rightarrow> KanaCharacter list \<Rightarrow> KanaCharacter list \<Rightarrow> rat" where
  "uniformRow C stacked grp =
     Min (set (map (\<lambda>kana. topOfStack C stacked (column kana) - CELL_SIZE C) grp))"

definition landed :: "rat \<Rightarrow> int \<Rightarrow> KanaCharacter \<Rightarrow> KanaCharacter" where
  "landed row processed kana = kana\<lparr>ky := row, stackedAt := Some processed\<rparr>"

text \<open>
  A tick passes the guards of \<^verbatim>\<open>update\<close>: it is not a warm-up, the game is active,
  not over, not paused and not frozen.
\<close>

definition tickRuns :: "Refs \<Rightarrow> GameState \<Rightarrow> rat \<Rightarrow> bool" where
  "tickRuns r gs now =
     (lastTime r \<noteq> None \<and> lastTime r \<noteq> Some 0 \<and> isActive gs \<and> \<not> isGameOver gs \<and>
      \<not> isPaused gs \<and> \<not> (frozenUntil gs \<noteq> 0 \<and> now < frozenUntil gs))"

text \<open>
  The group \<open>g\<close> lands in the fall step applied to \<open>prev\<close>: the groups of the falling
  blocks are \<open>pre\<close>, then \<open>g\<close>, then \<open>post\<close>, and \<open>g\<close> collides with the stack as it is
  once the groups of \<open>pre\<close> have been processed. \<open>landingRow\<close> is the row computed for it.
\<close>

definition stackBefore :: "Constants \<Rightarrow> int \<Rightarrow> GameState \<Rightarrow> KanaCharacter list list \<Rightarrow> KanaCharacter list" where
  "stackBefore C processed prev pre =
     nextStackedKana (fallGroups C (currentSpeedOf C prev) processed (fallStart prev) pre)"

definition landsDuring :: "Constants \<Rightarrow> int \<Rightarrow> GameState \<Rightarrow> KanaCharacter list list \<Rightarrow> KanaCharacter list \<Rightarrow> KanaCharacter list list \<Rightarrow> bool" where
  "landsDuring C processed prev pre g post =
     (map snd (groupsOf (activeKana prev)) = pre @ g # post \<and>
      collision C (currentSpeedOf C prev) (stackBefore C processed prev pre) g)"

definition landingRow :: "Constants \<Rightarrow> int \<Rightarrow> GameState \<Rightarrow> KanaCharacter list list \<Rightarrow> KanaCharacter list \<Rightarrow> rat" where
  "landingRow C processed prev pre g = minTargetY C (stackBefore C processed prev pre) g"


text \<open>
  What a tick that passes the guards hands to the physics: the references, the state after
  the spawn attempt, and the exception if the spawn threw.
\<close>

definition afterSpawn :: "Constants \<Rightarrow> int \<Rightarrow> SpawnRandom \<Rightarrow> rat \<Rightarrow> App \<Rightarrow> Refs \<times> GameState \<times> jsError option" where
  "afterSpawn C sessionNumber rnd time a =
     spawnPhase C (wordSRS a) sessionNumber rnd (time - the (lastTime (refs a)))
       ((refs a)\<lparr>lastTime := Some time\<rparr>) (gameState a)"

text \<open>
  The entries of a grouping have distinct keys, and each holds blocks of its key only.
\<close>

definition keyed :: "(string \<times> KanaCharacter list) list \<Rightarrow> bool" where
  "keyed es = (distinct (map fst es) \<and> (\<forall>e\<in>set es. \<forall>x\<in>set (snd e). groupKey x = fst e))"

fun isStartGame :: "Event \<Rightarrow> bool" where
  "isStartGame (StartGame m d) = True"
| "isStartGame e = False"

definition board :: "App \<Rightarrow> KanaCharacter list" where
  "board a = activeKana (gameState a) @ stackedKana (gameState a)"

definition hintFree :: "KanaCharacter list \<Rightarrow> bool" where
  "hintFree ks = list_all (\<lambda>k. hintCount k = None) ks"

text \<open>The classification once the hint count is out of the way.\<close>

definition elapsedConfidence :: "int \<Rightarrow> bool \<Rightarrow> KanaCharacter \<Rightarrow> ConfidenceLevel" where
  "elapsedConfidence processed isStacked match =
     (if \<not> isStacked then confident
      else if processed - landedAt match \<ge> CONFIDENCE_THRESHOLD_DIFFICULT then difficult
      else if processed - landedAt match \<ge> CONFIDENCE_THRESHOLD_HESITANT then hesitant
      else confident)"


text \<open>
  The blocks of \<open>allVisible\<close> whose identifiers a vocabulary clear with primary match
  \<open>match\<close> collects for removal: the group of the match (or the match alone when it has
  no group id), then the other groups that hold a block of the same catalog item.
\<close>

definition groupPart :: "KanaCharacter list \<Rightarrow> KanaCharacter \<Rightarrow> KanaCharacter list" where
  "groupPart allVisible match =
     (if truthyS (wordGroupId match)
      then filter (\<lambda>k. wordGroupId k = wordGroupId match) allVisible else [match])"

definition chainPart :: "KanaCharacter list \<Rightarrow> KanaCharacter \<Rightarrow> KanaCharacter list" where
  "chainPart allVisible match =
     concat (map (\<lambda>g. filter (\<lambda>k. wordGroupId k = Some g) allVisible)
                 (filter (\<lambda>g. Some g \<noteq> wordGroupId match) (matchingGroups allVisible match)))"

definition clearedBlocks :: "KanaCharacter list \<Rightarrow> KanaCharacter \<Rightarrow> KanaCharacter list" where
  "clearedBlocks allVisible match = groupPart allVisible match @ chainPart allVisible match"

definition explosionPos :: "Explosion \<Rightarrow> rat \<times> rat" where
  "explosionPos e = (e_x e, e_y e)"

definition blockPos :: "KanaCharacter \<Rightarrow> rat \<times> rat" where
  "blockPos k = (kx k, ky k)"

section \<open>Example data for the instances\<close>

definition sampleWord :: "string \<Rightarrow> nat \<Rightarrow> Word" where
  "sampleWord i m =
     \<lparr>w_id = i, w_kana = replicate m 12397, w_kanji = Some [29483], w_romaji = i,
      w_en = Some ''cat'', w_morae = m, w_pos = None\<rparr>"

definition sampleConstants :: Constants where
  "sampleConstants =
     \<lparr>HIRAGANA = [\<lparr>c_char = [12354], c_romaji = ''a''\<rparr>],
      KATAKANA = [\<lparr>c_char = [12450], c_romaji = ''a''\<rparr>],
      WORDS = [sampleWord ''neko'' 2, sampleWord ''sakana'' 3],
      COLUMNS = 8, CELL_SIZE = 60, BOARD_HEIGHT = 600, SPAWN_INTERVAL_BASE = 2000,
      FALL_SPEED_BASE = 2,
      SPEED_MULTIPLIERS = (\<lambda>d. case d of slow \<Rightarrow> 1 / 2 | normal \<Rightarrow> 1 | fast \<Rightarrow> 3 / 2)\<rparr>"

text \<open>A kana block \<open>a\<close> and a fragment of a word, in column \<open>col\<close> at height \<open>yv\<close>.\<close>

definition sampleKana :: "string \<Rightarrow> int \<Rightarrow> rat \<Rightarrow> KanaCharacter" where
  "sampleKana i col yv =
     \<lparr>kid = i, char = [12354], romaji = ''a'', ktype = hiraganaT, kx = of_int col * 60,
      ky = yv, column = col, isDead = False, kanji = None, en = None, wordId = None,
      wordGroupId = None, wordRomaji = None, wordIndex = None, wordLength = None, pos = None,
      stackedAt = None, hintCount = None\<rparr>"

definition sampleFragment :: "string \<Rightarrow> string \<Rightarrow> string \<Rightarrow> nat \<Rightarrow> nat \<Rightarrow> int \<Rightarrow> rat \<Rightarrow> KanaCharacter" where
  "sampleFragment i w g idx len col yv =
     \<lparr>kid = i, char = [12397], romaji = w, ktype = wordT, kx = of_int col * 60,
      ky = yv, column = col, isDead = False, kanji = Some [29483], en = Some ''cat'',
      wordId = Some w, wordGroupId = Some g, wordRomaji = Some w, wordIndex = Some idx,
      wordLength = Some len, pos = None, stackedAt = None, hintCount = None\<rparr>"

definition sampleRandom :: SpawnRandom where
  "sampleRandom =
     \<lparr>rReview = 9 / 10, rEntry = 0, rColumn = 0, rStart = 0, rGroupId = ''g9'',
      rIds = (\<lambda>i. replicate (Suc i) CHR ''k'')\<rparr>"

definition sampleGame :: "KanaMode \<Rightarrow> KanaCharacter list \<Rightarrow> KanaCharacter list \<Rightarrow> GameState" where
  "sampleGame m active stacked =
     \<lparr>score = 0, isActive = True, isGameOver = False, isPaused = False, activeKana = active,
      stackedKana = stacked, explosions = [], mode = m, difficulty = normal, frozenUntil = 0,
      streak = 3, isFreezeAbilityActive = False\<rparr>"

definition sampleApp :: "KanaMode \<Rightarrow> KanaCharacter list \<Rightarrow> KanaCharacter list \<Rightarrow> App" where
  "sampleApp m active stacked =
     \<lparr>refs = \<lparr>lastTime = Some 1000, spawnTimer = 0, blocksProcessed = 7\<rparr>,
      wordSRS = Map.empty, gameState = sampleGame m active stacked\<rparr>"


section \<open>Properties of the SRS update\<close>

lemma srsStep_progressInRange:
  assumes "progressInRange d"
  shows "progressInRange (srsStep s c d)"
proof -
  have g: "0 \<le> progressGain c"
    by (simp add: progressGain_def PROGRESS_CONFIDENT_def PROGRESS_HESITANT_def
        PROGRESS_DIFFICULT_def)
  from assms g show ?thesis
    by (auto simp: progressInRange_def srsStep_def Let_def min_def)
qed

lemma defaultSRS_progressInRange: "progressInRange (defaultSRS s)"
  by (simp add: progressInRange_def defaultSRS_def SRS_MAX_LEVEL_def)

lemma updateWordSRS_progressInRange:
  assumes "\<And>w d. srs w = Some d \<Longrightarrow> progressInRange d"
    and "updateWordSRS s k c srs w = Some d"
  shows "progressInRange d"
proof (cases "w = k")
  case True
  with assms(2) have d: "d = srsStep s c (case srs k of Some current \<Rightarrow> current | None \<Rightarrow> defaultSRS s)"
    by (simp add: updateWordSRS_def)
  have "progressInRange (case srs k of Some current \<Rightarrow> current | None \<Rightarrow> defaultSRS s)"
    using assms(1) defaultSRS_progressInRange by (cases "srs k") auto
  with d show ?thesis by (simp add: srsStep_progressInRange)
next
  case False
  with assms show ?thesis by (simp add: updateWordSRS_def)
qed

lemma processClears_progressInRange:
  assumes "\<And>w d. srs w = Some d \<Longrightarrow> progressInRange d"
    and "processClears es srs w = Some d"
  shows "progressInRange d"
  using assms
proof (induction es arbitrary: srs)
  case Nil
  then show ?case by simp
next
  case (Cons e es)
  obtain s k c where e: "e = (s, k, c)" by (cases e) auto
  show ?case
  proof (rule Cons.IH)
    show "\<And>w d. updateWordSRS s k c srs w = Some d \<Longrightarrow> progressInRange d"
      using Cons.prems(1) by (rule updateWordSRS_progressInRange)
    show "processClears es (updateWordSRS s k c srs) w = Some d"
      using Cons.prems(2) e by simp
  qed
qed

text \<open>
  C1 (as amended). For every sequence of clear events processed by the SRS update, started
  from a map whose entries have their progress in range (the empty map is one), every stored
  progress is at least 0 and at most 1, and it is below 1 for every item below
  \<open>SRS_MAX_LEVEL\<close>. At \<open>SRS_MAX_LEVEL\<close> the progress keeps accumulating and is cut at 1 by
  \<^verbatim>\<open>Math.min(1, newProgress)\<close>.
\<close>

theorem C1_progress_closed_interval:
  assumes "\<And>w d. srs w = Some d \<Longrightarrow> progressInRange d"
    and "processClears es srs w = Some d"
  shows "0 \<le> progress d \<and> progress d \<le> 1 \<and> (level d < SRS_MAX_LEVEL \<longrightarrow> progress d < 1)"
  using processClears_progressInRange [OF assms] by (simp add: progressInRange_def)

theorem C1_progress_closed_interval_witness:
  "processClears [(1, ''neko'', confident), (1, ''neko'', hesitant)] Map.empty ''neko'' =
     Some \<lparr>level = 0, progress = 3 / 4, nextReviewSession = Some 1, confidentCount = 1,
           hesitantCount = 1, difficultCount = 0, lastAttemptSession = 1\<rparr> \<and>
   (0::rat) \<le> 3 / 4 \<and> (3 / 4 :: rat) \<le> 1 \<and> (0::nat) < SRS_MAX_LEVEL \<and> (3 / 4 :: rat) < 1"
proof -
  have h: "processClears [(1, ''neko'', confident), (1, ''neko'', hesitant)] Map.empty ''neko'' =
     Some \<lparr>level = 0, progress = 3 / 4, nextReviewSession = Some 1, confidentCount = 1,
           hesitantCount = 1, difficultCount = 0, lastAttemptSession = 1\<rparr>"
    by (simp add: updateWordSRS_def srsStep_def defaultSRS_def progressGain_def intervalAt_def
        SRS_INTERVALS_def SRS_MAX_LEVEL_def PROGRESS_CONFIDENT_def PROGRESS_HESITANT_def Let_def)
  have e: "\<And>w d. (Map.empty :: WordSRS) w = Some d \<Longrightarrow> progressInRange d" by simp
  from C1_progress_closed_interval [OF e h] h show ?thesis by (simp add: SRS_MAX_LEVEL_def)
qed

text \<open>
  C1 as stated fails: fourteen confident clears of one item, from the empty map, take it to
  level 6 with progress 0 after twelve, and the two further clears bring the stored progress
  to exactly 1.
\<close>

theorem C1_progress_reaches_one:
  "\<not> progress (the (processClears (replicate 14 (1, ''neko'', confident)) Map.empty ''neko'')) < 1"
  by code_simp

section \<open>Properties of the review draw\<close>

text \<open>
  C2. With exactly one due item the code computes \<open>0.3 + 1 * 0.05 = 0.35\<close>, not the 0.30
  of the specification and of the comment above the line (``Base chance 30%, +5% for each extra word
  due''): a roll of 0.30 draws from the review pool.
\<close>

theorem C2_one_due_item_chance: "reviewChance [w] = 7 / 20 \<and> doReview (3 / 10) [w]"
  by (simp add: reviewChance_def doReview_def)

section \<open>Properties of the difficulty gating\<close>

lemma unseen_iff: "unseen srs w \<longleftrightarrow> \<not> srsLevelOf srs (w_id w) > 0"
  by (simp add: unseen_def srsLevelOf_def split: option.splits)

lemma no_unseen_iff:
  "length (filter (unseen srs) (filter (\<lambda>w. w_morae w = m) ws)) = 0 \<longleftrightarrow> allSeenAt ws srs m"
  by (auto simp: allSeenAt_def wordsAtTier_def unseen_iff list_all_iff filter_empty_conv)

lemma progressionLoop_sorted:
  assumes "sorted_wrt (<) ms" and "\<forall>m\<in>set ms. mm \<le> m"
  shows "progressionLoop ws srs ms mm =
     (case takeWhile (allSeenAt ws srs) (filter (\<lambda>m. wordsAtTier ws m \<noteq> []) ms) of
        [] \<Rightarrow> mm | t # ts \<Rightarrow> last (t # ts) + 1)"
  using assms
proof (induction ms arbitrary: mm)
  case Nil
  then show ?case by simp
next
  case (Cons m ms)
  have nlt: "\<not> m < mm" using Cons.prems(2) by auto
  have srt: "sorted_wrt (<) ms" using Cons.prems(1) by simp
  show ?case
  proof (cases "wordsAtTier ws m = []")
    case True
    have "progressionLoop ws srs (m # ms) mm = progressionLoop ws srs ms mm"
      using nlt True by (simp add: wordsAtTier_def)
    also have "\<dots> = (case takeWhile (allSeenAt ws srs) (filter (\<lambda>m. wordsAtTier ws m \<noteq> []) ms) of
        [] \<Rightarrow> mm | t # ts \<Rightarrow> last (t # ts) + 1)"
      using Cons.IH [OF srt] Cons.prems(2) by simp
    finally show ?thesis using True by simp
  next
    case False
    note ne = False
    show ?thesis
    proof (cases "allSeenAt ws srs m")
      case True
      have mx: "max mm (m + 1) = m + 1" using nlt by simp
      have "progressionLoop ws srs (m # ms) mm = progressionLoop ws srs ms (m + 1)"
        using nlt ne True mx no_unseen_iff [of srs m ws]
        by (simp add: wordsAtTier_def Let_def)
      also have "\<dots> = (case takeWhile (allSeenAt ws srs) (filter (\<lambda>m. wordsAtTier ws m \<noteq> []) ms) of
        [] \<Rightarrow> m + 1 | t # ts \<Rightarrow> last (t # ts) + 1)"
      proof -
        have "\<forall>x\<in>set ms. m + 1 \<le> x" using Cons.prems(1) by auto
        then show ?thesis by (rule Cons.IH [OF srt])
      qed
      finally show ?thesis using ne True by (simp split: list.splits)
    next
      case False
      have "progressionLoop ws srs (m # ms) mm = mm"
        using nlt ne False no_unseen_iff [of srs m ws]
        by (simp add: wordsAtTier_def Let_def)
      then show ?thesis using ne False by simp
    qed
  qed
qed

lemma baseMaxMorae_cases: "baseMaxMorae sc = 2 \<or> baseMaxMorae sc = 3 \<or> baseMaxMorae sc = 4"
  by (simp add: baseMaxMorae_def)

lemma computeMaxMorae_gatingSpec:
  "computeMaxMorae ws srs sc = gatingSpec ws srs (baseMaxMorae sc)"
proof -
  consider "baseMaxMorae sc = 2" | "baseMaxMorae sc = 3" | "baseMaxMorae sc = 4"
    using baseMaxMorae_cases by blast
  then show ?thesis
  proof cases
    case 1
    have "progressionLoop ws srs [2, 3, 4, 5, 6] 2 =
      (case takeWhile (allSeenAt ws srs) (filter (\<lambda>m. wordsAtTier ws m \<noteq> []) [2, 3, 4, 5, 6]) of
        [] \<Rightarrow> 2 | t # ts \<Rightarrow> last (t # ts) + 1)"
      by (rule progressionLoop_sorted) simp_all
    moreover have "scannedTiers ws 2 = filter (\<lambda>m. wordsAtTier ws m \<noteq> []) [2, 3, 4, 5, 6]"
      by (simp add: scannedTiers_def)
    ultimately show ?thesis using 1 by (simp add: computeMaxMorae_def gatingSpec_def)
  next
    case 2
    have "progressionLoop ws srs [2, 3, 4, 5, 6] 3 = progressionLoop ws srs [3, 4, 5, 6] 3"
      by simp
    also have "\<dots> =
      (case takeWhile (allSeenAt ws srs) (filter (\<lambda>m. wordsAtTier ws m \<noteq> []) [3, 4, 5, 6]) of
        [] \<Rightarrow> 3 | t # ts \<Rightarrow> last (t # ts) + 1)"
      by (rule progressionLoop_sorted) simp_all
    finally have a: "progressionLoop ws srs [2, 3, 4, 5, 6] 3 =
      (case takeWhile (allSeenAt ws srs) (filter (\<lambda>m. wordsAtTier ws m \<noteq> []) [3, 4, 5, 6]) of
        [] \<Rightarrow> 3 | t # ts \<Rightarrow> last (t # ts) + 1)" .
    have "scannedTiers ws 3 = filter (\<lambda>m. wordsAtTier ws m \<noteq> []) [3, 4, 5, 6]"
      by (simp add: scannedTiers_def)
    with a show ?thesis using 2 by (simp add: computeMaxMorae_def gatingSpec_def)
  next
    case 3
    have "progressionLoop ws srs [2, 3, 4, 5, 6] 4 = progressionLoop ws srs [4, 5, 6] 4"
      by simp
    also have "\<dots> =
      (case takeWhile (allSeenAt ws srs) (filter (\<lambda>m. wordsAtTier ws m \<noteq> []) [4, 5, 6]) of
        [] \<Rightarrow> 4 | t # ts \<Rightarrow> last (t # ts) + 1)"
      by (rule progressionLoop_sorted) simp_all
    finally have a: "progressionLoop ws srs [2, 3, 4, 5, 6] 4 =
      (case takeWhile (allSeenAt ws srs) (filter (\<lambda>m. wordsAtTier ws m \<noteq> []) [4, 5, 6]) of
        [] \<Rightarrow> 4 | t # ts \<Rightarrow> last (t # ts) + 1)" .
    have "scannedTiers ws 4 = filter (\<lambda>m. wordsAtTier ws m \<noteq> []) [4, 5, 6]"
      by (simp add: scannedTiers_def)
    with a show ?thesis using 3 by (simp add: computeMaxMorae_def gatingSpec_def)
  qed
qed

lemma not_allSeenAt_nonempty: "\<not> allSeenAt ws srs m \<Longrightarrow> wordsAtTier ws m \<noteq> []"
  by (auto simp: allSeenAt_def)

text \<open>
  C7 (as amended). The max-difficulty tier starts from the score-derived baseline (score
  below 500 gives 2, below 1000 gives 3, otherwise 4). The scan visits, in ascending order,
  the tiers from the baseline up to 6 that have at least one catalog item; a tier without
  catalog items is skipped and neither raises nor stops. At each visited tier the value is
  raised to tier+1 exactly when every catalog item of the tier has level above 0, and the
  scan stops at the first visited tier with an unseen item. In particular, from baseline 2
  with a non-empty tier 2 whose items all have level above 0 the value becomes 3, and not 4,
  when some tier-3 item is still unseen.
\<close>

theorem C7_max_difficulty_gating:
  "baseMaxMorae sc = (if sc < 500 then 2 else if sc < 1000 then 3 else 4) \<and>
   computeMaxMorae ws srs sc = gatingSpec ws srs (baseMaxMorae sc) \<and>
   (sc < 500 \<and> wordsAtTier ws 2 \<noteq> [] \<and> allSeenAt ws srs 2 \<and> \<not> allSeenAt ws srs 3
      \<longrightarrow> computeMaxMorae ws srs sc = 3)"
proof (intro conjI impI)
  show "baseMaxMorae sc = (if sc < 500 then 2 else if sc < 1000 then 3 else 4)"
    by (simp add: baseMaxMorae_def)
  show "computeMaxMorae ws srs sc = gatingSpec ws srs (baseMaxMorae sc)"
    by (rule computeMaxMorae_gatingSpec)
  assume a: "sc < 500 \<and> wordsAtTier ws 2 \<noteq> [] \<and> allSeenAt ws srs 2 \<and> \<not> allSeenAt ws srs 3"
  then have "wordsAtTier ws 3 \<noteq> []" by (auto dest: not_allSeenAt_nonempty)
  with a show "computeMaxMorae ws srs sc = 3"
    by (simp add: computeMaxMorae_gatingSpec gatingSpec_def scannedTiers_def baseMaxMorae_def)
qed

theorem C7_max_difficulty_gating_witness:
  "baseMaxMorae 0 = 2 \<and>
   computeMaxMorae [sampleWord ''neko'' 2, sampleWord ''sakana'' 3]
     [''neko'' \<mapsto> (defaultSRS 1)\<lparr>level := 1\<rparr>] 0 = 3"
proof -
  let ?ws = "[sampleWord ''neko'' 2, sampleWord ''sakana'' 3]"
  let ?srs = "[''neko'' \<mapsto> (defaultSRS 1)\<lparr>level := 1\<rparr>]"
  have h: "(0::int) < 500 \<and> wordsAtTier ?ws 2 \<noteq> [] \<and> allSeenAt ?ws ?srs 2 \<and> \<not> allSeenAt ?ws ?srs 3"
    by (simp add: wordsAtTier_def allSeenAt_def sampleWord_def srsLevelOf_def defaultSRS_def)
  have c: "computeMaxMorae ?ws ?srs 0 = 3"
    using C7_max_difficulty_gating [of 0 ?ws ?srs] h by blast
  have b: "baseMaxMorae 0 = 2" by (simp add: baseMaxMorae_def)
  from b c show ?thesis by simp
qed

text \<open>
  C7 as stated fails on a catalog without tier-2 items: every tier-2 item has level above 0
  and the only tier-3 item is unseen, yet the value stays at the baseline 2 instead of
  becoming 3, because the empty tier is skipped by \<^verbatim>\<open>continue\<close>.
\<close>

theorem C7_empty_tier_not_raised:
  "computeMaxMorae [sampleWord ''sakana'' 3] Map.empty 0 = 2"
  by (simp add: computeMaxMorae_def baseMaxMorae_def sampleWord_def unseen_def)

section \<open>Properties of the spawn\<close>









section \<open>Properties of the grouping\<close>

lemma pushGroup_members:
  "e \<in> set (pushGroup key k gs) \<Longrightarrow> x \<in> set (snd e) \<Longrightarrow>
     x = k \<or> (\<exists>e'\<in>set gs. x \<in> set (snd e'))"
  by (induction gs) (auto split: if_splits)

lemma foldl_pushGroup_members:
  "e \<in> set (foldl (\<lambda>groups k. pushGroup (groupKey k) k groups) acc ks) \<Longrightarrow>
   x \<in> set (snd e) \<Longrightarrow> x \<in> set ks \<or> (\<exists>e'\<in>set acc. x \<in> set (snd e'))"
proof (induction ks arbitrary: acc)
  case Nil
  then show ?case by auto
next
  case (Cons k ks)
  from Cons.IH [of "pushGroup (groupKey k) k acc"] Cons.prems
  have "x \<in> set ks \<or> (\<exists>e'\<in>set (pushGroup (groupKey k) k acc). x \<in> set (snd e'))"
    by simp
  then show ?case
  proof
    assume "x \<in> set ks"
    then show ?thesis by simp
  next
    assume "\<exists>e'\<in>set (pushGroup (groupKey k) k acc). x \<in> set (snd e')"
    then obtain e' where "e' \<in> set (pushGroup (groupKey k) k acc)" "x \<in> set (snd e')"
      by blast
    then have "x = k \<or> (\<exists>e''\<in>set acc. x \<in> set (snd e''))" by (rule pushGroup_members)
    then show ?thesis by auto
  qed
qed

lemma ownKeysOrder_set: "set (ownKeysOrder es) = set es"
  by (auto simp: ownKeysOrder_def)

lemma groupsOf_members: "e \<in> set (groupsOf ks) \<Longrightarrow> x \<in> set (snd e) \<Longrightarrow> x \<in> set ks"
  using foldl_pushGroup_members [of e "[]" ks x]
  by (simp add: groupsOf_def ownKeysOrder_set)

lemma pushGroup_keys: "fst ` set (pushGroup key k gs) = insert key (fst ` set gs)"
  by (induction key k gs rule: pushGroup.induct) (simp_all add: insert_commute)

lemma pushGroup_keyed:
  assumes "keyed gs"
  shows "keyed (pushGroup (groupKey k) k gs)"
  using assms
proof (induction gs)
  case Nil
  then show ?case by (simp add: keyed_def)
next
  case (Cons e gs)
  obtain g ms where e: "e = (g, ms)" by (cases e)
  from Cons.prems have kg: "keyed gs" by (auto simp: keyed_def)
  show ?case
  proof (cases "g = groupKey k")
    case True
    with Cons.prems e show ?thesis by (auto simp: keyed_def)
  next
    case False
    have "keyed (pushGroup (groupKey k) k gs)" using kg by (rule Cons.IH)
    moreover have "g \<notin> fst ` set (pushGroup (groupKey k) k gs)"
      using Cons.prems e False by (auto simp: pushGroup_keys keyed_def)
    ultimately show ?thesis using Cons.prems e False by (auto simp: keyed_def)
  qed
qed

lemma pushGroup_has: "\<exists>ms. (key, ms) \<in> set (pushGroup key k gs) \<and> k \<in> set ms"
proof (induction key k gs rule: pushGroup.induct)
  case (1 key k)
  then show ?case by simp
next
  case (2 key k g members rest)
  show ?case
  proof (cases "g = key")
    case True
    then have "(key, members @ [k]) \<in> set (pushGroup key k ((g, members) # rest))" by simp
    then show ?thesis by fastforce
  next
    case False
    with 2 obtain ms where "(key, ms) \<in> set (pushGroup key k rest)" "k \<in> set ms" by blast
    with False have "(key, ms) \<in> set (pushGroup key k ((g, members) # rest))" by simp
    with \<open>k \<in> set ms\<close> show ?thesis by blast
  qed
qed

lemma pushGroup_keeps:
  "(g, ms) \<in> set gs \<Longrightarrow> x \<in> set ms \<Longrightarrow>
     \<exists>ms'. (g, ms') \<in> set (pushGroup key k gs) \<and> x \<in> set ms'"
proof (induction key k gs rule: pushGroup.induct)
  case (1 key k)
  then show ?case by simp
next
  case (2 key k g' members rest)
  show ?case
  proof (cases "(g, ms) = (g', members)")
    case True
    show ?thesis
    proof (cases "g' = key")
      case k: True
      then have "(g, members @ [k]) \<in> set (pushGroup key k ((g', members) # rest))"
        using True by simp
      moreover have "x \<in> set (members @ [k])" using True "2.prems"(2) by simp
      ultimately show ?thesis by blast
    next
      case k: False
      then have "(g, ms) \<in> set (pushGroup key k ((g', members) # rest))" using True by simp
      with "2.prems"(2) show ?thesis by blast
    qed
  next
    case False
    with "2.prems"(1) have r: "(g, ms) \<in> set rest" by auto
    show ?thesis
    proof (cases "g' = key")
      case k: True
      then have "(g, ms) \<in> set (pushGroup key k ((g', members) # rest))" using r by simp
      with "2.prems"(2) show ?thesis by blast
    next
      case k: False
      from "2.IH" [OF k r "2.prems"(2)]
      obtain ms' where "(g, ms') \<in> set (pushGroup key k rest)" "x \<in> set ms'" by blast
      with k have "(g, ms') \<in> set (pushGroup key k ((g', members) # rest))" by simp
      with \<open>x \<in> set ms'\<close> show ?thesis by blast
    qed
  qed
qed

lemma foldl_pushGroup_keyed:
  "keyed acc \<Longrightarrow> keyed (foldl (\<lambda>groups k. pushGroup (groupKey k) k groups) acc ks)"
  by (induction ks arbitrary: acc) (simp_all add: pushGroup_keyed)

lemma foldl_pushGroup_keeps:
  "(g, ms) \<in> set acc \<Longrightarrow> x \<in> set ms \<Longrightarrow>
     \<exists>ms'. (g, ms') \<in> set (foldl (\<lambda>groups k. pushGroup (groupKey k) k groups) acc ks) \<and>
           x \<in> set ms'"
proof (induction ks arbitrary: acc ms)
  case Nil
  then show ?case by auto
next
  case (Cons k ks)
  from pushGroup_keeps [OF Cons.prems]
  obtain ms' where "(g, ms') \<in> set (pushGroup (groupKey k) k acc)" "x \<in> set ms'" by blast
  from Cons.IH [OF this] show ?case by simp
qed

lemma foldl_pushGroup_has:
  "x \<in> set ks \<Longrightarrow>
     \<exists>ms. (groupKey x, ms) \<in> set (foldl (\<lambda>groups k. pushGroup (groupKey k) k groups) acc ks) \<and>
          x \<in> set ms"
proof (induction ks arbitrary: acc)
  case Nil
  then show ?case by simp
next
  case (Cons k ks)
  show ?case
  proof (cases "x = k")
    case True
    obtain ms where "(groupKey k, ms) \<in> set (pushGroup (groupKey k) k acc)" "k \<in> set ms"
      using pushGroup_has by blast
    from foldl_pushGroup_keeps [OF this] True show ?thesis by simp
  next
    case False
    with Cons.prems have "x \<in> set ks" by simp
    from Cons.IH [OF this] show ?thesis by simp
  qed
qed

lemma keyed_ownKeysOrder: "keyed es \<Longrightarrow> keyed (ownKeysOrder es)"
proof -
  assume k: "keyed es"
  then have d: "distinct es" and i: "inj_on fst (set es)"
    by (simp_all add: keyed_def distinct_map)
  have "distinct (map fst (ownKeysOrder es))"
    unfolding ownKeysOrder_def
    using d i by (auto simp: distinct_map intro: inj_on_subset)
  with k show ?thesis by (simp add: keyed_def ownKeysOrder_set)
qed

lemma keyed_groupsOf: "keyed (groupsOf ks)"
  unfolding groupsOf_def
  by (rule keyed_ownKeysOrder, rule foldl_pushGroup_keyed) (simp add: keyed_def)

lemma groupsOf_has:
  "x \<in> set ks \<Longrightarrow> \<exists>ms. (groupKey x, ms) \<in> set (groupsOf ks) \<and> x \<in> set ms"
  using foldl_pushGroup_has [of x ks "[]"] by (simp add: groupsOf_def ownKeysOrder_set)

lemma keyed_sortedGroups: "keyed es \<Longrightarrow> keyed (sortedGroups es)"
proof -
  assume k: "keyed es"
  then have d: "distinct es" and i: "inj_on fst (set es)"
    by (simp_all add: keyed_def distinct_map)
  have "distinct (map fst (sortedGroups es))"
    unfolding sortedGroups_def using d i by (simp add: distinct_map)
  with k show ?thesis by (simp add: keyed_def sortedGroups_def)
qed

section \<open>Properties of the fall step\<close>

lemma landKana_stacked:
  "nextStackedKana (foldl (landKana y bp) acc grp) = nextStackedKana acc @ map (landed y bp) grp"
  by (induction grp arbitrary: acc) (simp_all add: landKana_def landed_def)

lemma landKana_active:
  "nextActiveKana (foldl (landKana y bp) acc grp) = nextActiveKana acc"
  by (induction grp arbitrary: acc) (simp_all add: landKana_def)

lemma landKana_over:
  "triggeredGameOver (foldl (landKana y bp) acc grp) = triggeredGameOver acc"
  by (induction grp arbitrary: acc) (simp_all add: landKana_def)

lemma landKana_reset:
  "streakReset (foldl (landKana y bp) acc grp) = (streakReset acc \<or> grp \<noteq> [])"
  by (induction grp arbitrary: acc) (auto simp: landKana_def)

lemma collision_nonempty: "collision C v st grp \<Longrightarrow> grp \<noteq> []"
  by (auto simp: collision_def)

lemma fallGroup_stacked:
  "nextStackedKana (fallGroup C v bp acc grp) =
     (if collision C v (nextStackedKana acc) grp
      then nextStackedKana acc @ map (landed (minTargetY C (nextStackedKana acc) grp) bp) grp
      else nextStackedKana acc)"
  by (simp add: fallGroup_def Let_def landKana_stacked)

lemma fallGroup_active:
  "nextActiveKana (fallGroup C v bp acc grp) =
     (if collision C v (nextStackedKana acc) grp then nextActiveKana acc
      else nextActiveKana acc @ map (\<lambda>kana. kana\<lparr>ky := ky kana + v\<rparr>) grp)"
  by (simp add: fallGroup_def Let_def landKana_active)

lemma fallGroup_reset:
  "streakReset (fallGroup C v bp acc grp) =
     (streakReset acc \<or> collision C v (nextStackedKana acc) grp)"
  by (auto simp: fallGroup_def Let_def landKana_reset dest: collision_nonempty)

lemma fallGroup_over:
  "triggeredGameOver (fallGroup C v bp acc grp) =
     (triggeredGameOver acc \<or>
      (collision C v (nextStackedKana acc) grp \<and> minTargetY C (nextStackedKana acc) grp \<le> 0))"
  by (auto simp: fallGroup_def Let_def landKana_over)

lemma fallGroups_reset_mono:
  "streakReset acc \<Longrightarrow> streakReset (fallGroups C v bp acc gs)"
  unfolding fallGroups_def
  by (induction gs arbitrary: acc) (simp_all add: fallGroup_reset)

lemma fallGroups_over_mono:
  "triggeredGameOver acc \<Longrightarrow> triggeredGameOver (fallGroups C v bp acc gs)"
  unfolding fallGroups_def
  by (induction gs arbitrary: acc) (simp_all add: fallGroup_over)

lemma fallGroups_stacked_mono:
  "set (nextStackedKana acc) \<subseteq> set (nextStackedKana (fallGroups C v bp acc gs))"
  unfolding fallGroups_def
proof (induction gs arbitrary: acc)
  case Nil
  then show ?case by simp
next
  case (Cons g gs)
  have "set (nextStackedKana acc) \<subseteq> set (nextStackedKana (fallGroup C v bp acc g))"
    by (simp add: fallGroup_stacked)
  also have "\<dots> \<subseteq> set (nextStackedKana (foldl (fallGroup C v bp) (fallGroup C v bp acc g) gs))"
    by (rule Cons.IH)
  finally show ?case by simp
qed

lemma fallGroups_append:
  "fallGroups C v bp acc (pre @ g # post) =
     fallGroups C v bp (fallGroup C v bp (fallGroups C v bp acc pre) g) post"
  by (simp add: fallGroups_def)

lemma foldl_min:
  "foldl (\<lambda>m k. min m (f k)) (a::rat) xs =
     (if xs = [] then a else min a (Min (set (map f xs))))"
proof (induction xs arbitrary: a)
  case Nil
  then show ?case by simp
next
  case (Cons x xs)
  show ?case
  proof (cases "xs = []")
    case True
    then show ?thesis by simp
  next
    case False
    then have "foldl (\<lambda>m k. min m (f k)) a (x # xs) = min (min a (f x)) (Min (set (map f xs)))"
      using Cons.IH [of "min a (f x)"] by simp
    also have "\<dots> = min a (Min (set (map f (x # xs))))"
      using False by (simp add: min.assoc)
    finally show ?thesis by simp
  qed
qed

lemma topOfStack_le:
  assumes "\<forall>s\<in>set st. ky s \<le> BOARD_HEIGHT C"
  shows "topOfStack C st c \<le> BOARD_HEIGHT C"
proof (cases "filter (\<lambda>s. column s = c) st = []")
  case True
  then show ?thesis by (simp add: topOfStack_def)
next
  case False
  let ?ys = "map ky (filter (\<lambda>s. column s = c) st)"
  have "?ys \<noteq> []" using False by simp
  then have "set ?ys \<noteq> {}" by (simp only: set_empty not_False_eq_True)
  then have "Min (set ?ys) \<in> set ?ys" by (intro Min_in) simp_all
  then obtain s where "s \<in> set st" "Min (set ?ys) = ky s" by auto
  with assms have "Min (set ?ys) \<le> BOARD_HEIGHT C" by auto
  with False show ?thesis by (simp add: topOfStack_def)
qed

lemma minTargetY_uniformRow:
  assumes ne: "grp \<noteq> []" and c: "0 \<le> CELL_SIZE C" and b: "0 \<le> BOARD_HEIGHT C"
    and st: "\<forall>s\<in>set st. ky s \<le> BOARD_HEIGHT C"
  shows "minTargetY C st grp = uniformRow C st grp"
proof -
  let ?f = "\<lambda>kana. topOfStack C st (column kana) - CELL_SIZE C"
  obtain k where k: "k \<in> set grp" using ne by (cases grp) auto
  have "Min (set (map ?f grp)) \<le> ?f k" using k by (intro Min_le) auto
  also have "\<dots> \<le> BOARD_HEIGHT C" using topOfStack_le [OF st, of "column k"] c by simp
  also have "\<dots> \<le> BOARD_HEIGHT C * 2" using b by simp
  finally have le: "Min (set (map ?f grp)) \<le> BOARD_HEIGHT C * 2" .
  have "minTargetY C st grp = min (BOARD_HEIGHT C * 2) (Min (set (map ?f grp)))"
    using ne by (simp only: minTargetY_def foldl_min if_False)
  also have "\<dots> = Min (set (map ?f grp))" using le by (rule min_absorb2)
  finally show ?thesis by (simp only: uniformRow_def)
qed

lemma gravityGroup_grows:
  "set (fst acc) \<subseteq> set (fst (gravityGroup C v acc e))"
  by (auto simp: gravityGroup_def Let_def)

lemma foldl_gravityGroup_grows:
  "set (fst acc) \<subseteq> set (fst (foldl (gravityGroup C v) acc es))"
proof (induction es arbitrary: acc)
  case Nil
  then show ?case by simp
next
  case (Cons e es)
  have "set (fst acc) \<subseteq> set (fst (gravityGroup C v acc e))" by (rule gravityGroup_grows)
  also have "\<dots> \<subseteq> set (fst (foldl (gravityGroup C v) (gravityGroup C v acc e) es))"
    by (rule Cons.IH)
  finally show ?case by simp
qed

lemma gravityGroup_processed:
  "set (snd (gravityGroup C v acc e)) \<subseteq> insert (fst e) (set (snd acc))"
  by (auto simp: gravityGroup_def Let_def)

lemma foldl_gravityGroup_moves:
  assumes "distinct (map fst es)" and "fst ` set es \<inter> set (snd acc) = {}" and "e \<in> set es"
  shows "\<exists>d\<ge>0. \<forall>x\<in>set (snd e).
           x\<lparr>ky := ky x + d\<rparr> \<in> set (fst (foldl (gravityGroup C v) acc es))"
  using assms
proof (induction es arbitrary: acc)
  case Nil
  then show ?case by simp
next
  case (Cons e' es)
  show ?case
  proof (cases "e = e'")
    case True
    have np: "fst e \<notin> set (snd acc)" using Cons.prems(2) True by auto
    let ?d = "max 0 (gravityStep C v (fst acc) (snd e))"
    have "\<forall>x\<in>set (snd e). x\<lparr>ky := ky x + ?d\<rparr> \<in> set (fst (gravityGroup C v acc e))"
      using np by (simp add: gravityGroup_def Let_def)
    moreover have "set (fst (gravityGroup C v acc e))
        \<subseteq> set (fst (foldl (gravityGroup C v) (gravityGroup C v acc e) es))"
      by (rule foldl_gravityGroup_grows)
    ultimately have "\<forall>x\<in>set (snd e).
        x\<lparr>ky := ky x + ?d\<rparr> \<in> set (fst (foldl (gravityGroup C v) acc (e' # es)))"
      using True by auto
    moreover have "0 \<le> ?d" by simp
    ultimately show ?thesis by blast
  next
    case False
    with Cons.prems(3) have m: "e \<in> set es" by simp
    have d: "distinct (map fst es)" using Cons.prems(1) by simp
    have "fst ` set es \<inter> set (snd (gravityGroup C v acc e')) = {}"
    proof (rule ccontr)
      assume "fst ` set es \<inter> set (snd (gravityGroup C v acc e')) \<noteq> {}"
      then obtain g where g: "g \<in> fst ` set es" "g \<in> set (snd (gravityGroup C v acc e'))"
        by blast
      with gravityGroup_processed [of C v acc e'] have "g = fst e' \<or> g \<in> set (snd acc)"
        by blast
      moreover have "g \<noteq> fst e'" using g(1) Cons.prems(1) by (force simp: image_iff)
      moreover have "g \<notin> set (snd acc)" using g(1) Cons.prems(2) by (force simp: image_iff)
      ultimately show False by blast
    qed
    from Cons.IH [OF d this m] show ?thesis by simp
  qed
qed

lemma gravity_moves_group:
  assumes "x \<in> set st"
  shows "\<exists>d\<ge>0. \<forall>y\<in>set st. groupKey y = groupKey x \<longrightarrow>
           y\<lparr>ky := ky y + d\<rparr> \<in> set (gravity C v st)"
proof -
  let ?es = "sortedGroups (groupsOf st)"
  have ke: "keyed ?es" by (intro keyed_sortedGroups keyed_groupsOf)
  obtain ms where ms: "(groupKey x, ms) \<in> set (groupsOf st)" "x \<in> set ms"
    using groupsOf_has [OF assms] by blast
  then have e: "(groupKey x, ms) \<in> set ?es" by (simp add: sortedGroups_def)
  have "\<exists>d\<ge>0. \<forall>z\<in>set (snd (groupKey x, ms)).
           z\<lparr>ky := ky z + d\<rparr> \<in> set (fst (foldl (gravityGroup C v) ([], []) ?es))"
    using ke e by (intro foldl_gravityGroup_moves) (simp_all add: keyed_def)
  then obtain d where d: "0 \<le> d"
    "\<forall>z\<in>set ms. z\<lparr>ky := ky z + d\<rparr> \<in> set (gravity C v st)"
    by (auto simp: gravity_def)
  have "\<forall>y\<in>set st. groupKey y = groupKey x \<longrightarrow> y \<in> set ms"
  proof (intro ballI impI)
    fix y
    assume y: "y \<in> set st" and k: "groupKey y = groupKey x"
    obtain ms' where ms': "(groupKey y, ms') \<in> set (groupsOf st)" "y \<in> set ms'"
      using groupsOf_has [OF y] by blast
    have "distinct (map fst (groupsOf st))" using keyed_groupsOf by (simp add: keyed_def)
    then have "ms' = ms" using ms(1) ms'(1) k
      by (metis eq_key_imp_eq_value)
    with ms' show "y \<in> set ms" by simp
  qed
  with d show ?thesis by blast
qed

lemma groupKey_landed [simp]: "groupKey (landed row bp k) = groupKey k"
  by (simp add: groupKey_def landed_def)

lemma landed_group_after_gravity:
  assumes ld: "landsDuring C bp prev pre g post"
  shows "\<exists>d\<ge>0. \<forall>k\<in>set g.
           (landed (landingRow C bp prev pre g) bp k)\<lparr>ky := landingRow C bp prev pre g + d\<rparr>
             \<in> set (stackedKana (physics C bp prev))"
proof -
  let ?v = "currentSpeedOf C prev"
  let ?acc = "fallGroups C ?v bp (fallStart prev) pre"
  let ?R = "landingRow C bp prev pre g"
  let ?S = "nextStackedKana (fallGroups C ?v bp (fallStart prev)
              (map snd (groupsOf (activeKana prev))))"
  from ld have gs: "map snd (groupsOf (activeKana prev)) = pre @ g # post"
    and col: "collision C ?v (nextStackedKana ?acc) g"
    by (simp_all add: landsDuring_def stackBefore_def)
  have R: "?R = minTargetY C (nextStackedKana ?acc) g"
    by (simp add: landingRow_def stackBefore_def)
  have "g \<in> set (map snd (groupsOf (activeKana prev)))" using gs by simp
  then obtain e where e: "e \<in> set (groupsOf (activeKana prev))" "snd e = g" by auto
  have key: "\<forall>x\<in>set g. groupKey x = fst e"
    using keyed_groupsOf [of "activeKana prev"] e by (auto simp: keyed_def)
  have here: "set (map (landed ?R bp) g) \<subseteq> set (nextStackedKana (fallGroup C ?v bp ?acc g))"
    using col by (simp add: fallGroup_stacked R)
  also have "\<dots> \<subseteq> set (nextStackedKana (fallGroups C ?v bp (fallGroup C ?v bp ?acc g) post))"
    by (rule fallGroups_stacked_mono)
  also have "\<dots> = set ?S" by (simp only: gs fallGroups_append)
  finally have inS: "set (map (landed ?R bp) g) \<subseteq> set ?S" .
  obtain k0 where k0: "k0 \<in> set g" using collision_nonempty [OF col] by (cases g) auto
  then have x0: "landed ?R bp k0 \<in> set ?S" using inS by auto
  from gravity_moves_group [OF x0, of C ?v]
  obtain d where d: "0 \<le> d"
    "\<forall>y\<in>set ?S. groupKey y = groupKey (landed ?R bp k0) \<longrightarrow>
        y\<lparr>ky := ky y + d\<rparr> \<in> set (gravity C ?v ?S)"
    by blast
  have "\<forall>k\<in>set g. (landed ?R bp k)\<lparr>ky := ?R + d\<rparr> \<in> set (stackedKana (physics C bp prev))"
  proof
    fix k
    assume k: "k \<in> set g"
    then have m: "landed ?R bp k \<in> set ?S" using inS by auto
    have "groupKey (landed ?R bp k) = groupKey (landed ?R bp k0)" using key k k0 by simp
    with d(2) m have "(landed ?R bp k)\<lparr>ky := ky (landed ?R bp k) + d\<rparr> \<in> set (gravity C ?v ?S)"
      by blast
    moreover have "ky (landed ?R bp k) = ?R" by (simp add: landed_def)
    ultimately show "(landed ?R bp k)\<lparr>ky := ?R + d\<rparr> \<in> set (stackedKana (physics C bp prev))"
      by (simp add: physics_def Let_def)
  qed
  with d(1) show ?thesis by blast
qed

text \<open>
  C3. In the fall step of a tick, if for some block \<open>k0\<close> of a falling group the candidate
  next row \<open>ky k0 + v\<close> comes within one cell of the top of the stack in the column of
  \<open>k0\<close>, then no block of the group stays falling and every block of the group is appended
  to the stacked blocks at one and the same row, with the current counter as landing tick,
  and is still there when the remaining groups have been processed. On a board with
  non-negative cell size and height whose stacked blocks are not below the floor, that
  row is the least, over the columns of the group, of the top of the stack in the column
  minus one cell. The group may have any length and any of its blocks may be the one that
  collides: for a group of three whose middle column alone collides, all three land at that
  row. In the state that the updater returns, after its gravity pass, the blocks of a group
  that landed are still stacked at one common row: the landing row plus one displacement
  \<open>d \<ge> 0\<close> for the whole group.
\<close>

theorem C3_group_lands_at_uniform_row:
  "(k0 \<in> set grp \<and>
    topOfStack C (nextStackedKana acc) (column k0) \<le> ky k0 + v + CELL_SIZE C \<longrightarrow>
      nextStackedKana (fallGroup C v bp acc grp) =
        nextStackedKana acc @ map (landed (minTargetY C (nextStackedKana acc) grp) bp) grp \<and>
      nextActiveKana (fallGroup C v bp acc grp) = nextActiveKana acc \<and>
      (\<forall>k\<in>set grp. landed (minTargetY C (nextStackedKana acc) grp) bp k
              \<in> set (nextStackedKana (fallGroups C v bp acc (grp # rest)))) \<and>
      (0 \<le> CELL_SIZE C \<and> 0 \<le> BOARD_HEIGHT C \<and>
       (\<forall>s\<in>set (nextStackedKana acc). ky s \<le> BOARD_HEIGHT C)
         \<longrightarrow> minTargetY C (nextStackedKana acc) grp = uniformRow C (nextStackedKana acc) grp)) \<and>
   (landsDuring C bp prev pre g post \<longrightarrow>
      (\<exists>d\<ge>0. \<forall>k\<in>set g.
         (landed (landingRow C bp prev pre g) bp k)\<lparr>ky := landingRow C bp prev pre g + d\<rparr>
           \<in> set (stackedKana (physics C bp prev))))"
proof (intro conjI impI)
  assume h: "k0 \<in> set grp \<and>
    topOfStack C (nextStackedKana acc) (column k0) \<le> ky k0 + v + CELL_SIZE C"
  then have col: "collision C v (nextStackedKana acc) grp"
    by (auto simp: collision_def list_ex_iff)
  show a: "nextStackedKana (fallGroup C v bp acc grp) =
        nextStackedKana acc @ map (landed (minTargetY C (nextStackedKana acc) grp) bp) grp"
    using col by (simp add: fallGroup_stacked)
  show "nextActiveKana (fallGroup C v bp acc grp) = nextActiveKana acc"
    using col by (simp add: fallGroup_active)
  have "set (nextStackedKana (fallGroup C v bp acc grp))
          \<subseteq> set (nextStackedKana (fallGroups C v bp (fallGroup C v bp acc grp) rest))"
    by (rule fallGroups_stacked_mono)
  then show "\<forall>k\<in>set grp. landed (minTargetY C (nextStackedKana acc) grp) bp k
              \<in> set (nextStackedKana (fallGroups C v bp acc (grp # rest)))"
    using a by (auto simp: fallGroups_def)
  assume "0 \<le> CELL_SIZE C \<and> 0 \<le> BOARD_HEIGHT C \<and>
       (\<forall>s\<in>set (nextStackedKana acc). ky s \<le> BOARD_HEIGHT C)"
  then show "minTargetY C (nextStackedKana acc) grp = uniformRow C (nextStackedKana acc) grp"
    using collision_nonempty [OF col] by (auto intro: minTargetY_uniformRow)
next
  assume "landsDuring C bp prev pre g post"
  then show "\<exists>d\<ge>0. \<forall>k\<in>set g.
         (landed (landingRow C bp prev pre g) bp k)\<lparr>ky := landingRow C bp prev pre g + d\<rparr>
           \<in> set (stackedKana (physics C bp prev))"
    by (rule landed_group_after_gravity)
qed

theorem C3_group_lands_at_uniform_row_witness:
  "landsDuring sampleConstants 7
     (sampleGame words
        [sampleFragment ''f0'' ''neko'' ''g1'' 0 3 0 100,
         sampleFragment ''f1'' ''neko'' ''g1'' 1 3 1 100,
         sampleFragment ''f2'' ''neko'' ''g1'' 2 3 2 100]
        [sampleKana ''s1'' 1 161])
     []
     [sampleFragment ''f0'' ''neko'' ''g1'' 0 3 0 100,
      sampleFragment ''f1'' ''neko'' ''g1'' 1 3 1 100,
      sampleFragment ''f2'' ''neko'' ''g1'' 2 3 2 100]
     [] \<and>
   map ky (nextStackedKana (fallGroup sampleConstants 2 7
      (fallStart (sampleGame words
        [sampleFragment ''f0'' ''neko'' ''g1'' 0 3 0 100,
         sampleFragment ''f1'' ''neko'' ''g1'' 1 3 1 100,
         sampleFragment ''f2'' ''neko'' ''g1'' 2 3 2 100]
        [sampleKana ''s1'' 1 161]))
      [sampleFragment ''f0'' ''neko'' ''g1'' 0 3 0 100,
       sampleFragment ''f1'' ''neko'' ''g1'' 1 3 1 100,
       sampleFragment ''f2'' ''neko'' ''g1'' 2 3 2 100])) = [161, 101, 101, 101] \<and>
   (\<exists>d\<ge>0. list_all (\<lambda>k. (landed 101 7 k)\<lparr>ky := 101 + d\<rparr>
        \<in> set (stackedKana (physics sampleConstants 7
             (sampleGame words
               [sampleFragment ''f0'' ''neko'' ''g1'' 0 3 0 100,
                sampleFragment ''f1'' ''neko'' ''g1'' 1 3 1 100,
                sampleFragment ''f2'' ''neko'' ''g1'' 2 3 2 100]
               [sampleKana ''s1'' 1 161]))))
      [sampleFragment ''f0'' ''neko'' ''g1'' 0 3 0 100,
       sampleFragment ''f1'' ''neko'' ''g1'' 1 3 1 100,
       sampleFragment ''f2'' ''neko'' ''g1'' 2 3 2 100])"
proof -
  let ?grp = "[sampleFragment ''f0'' ''neko'' ''g1'' 0 3 0 100,
       sampleFragment ''f1'' ''neko'' ''g1'' 1 3 1 100,
       sampleFragment ''f2'' ''neko'' ''g1'' 2 3 2 100]"
  let ?prev = "sampleGame words ?grp [sampleKana ''s1'' 1 161]"
  let ?acc = "fallStart ?prev"
  have st: "nextStackedKana ?acc = [sampleKana ''s1'' 1 161]"
    by (simp add: fallStart_def sampleGame_def)
  have k0: "sampleFragment ''f1'' ''neko'' ''g1'' 1 3 1 100 \<in> set ?grp" by simp
  have hit: "topOfStack sampleConstants (nextStackedKana ?acc)
               (column (sampleFragment ''f1'' ''neko'' ''g1'' 1 3 1 100))
             \<le> ky (sampleFragment ''f1'' ''neko'' ''g1'' 1 3 1 100) + 2 + CELL_SIZE sampleConstants"
    by (simp add: fallStart_def sampleGame_def topOfStack_def sampleKana_def sampleFragment_def
        sampleConstants_def)
  have sane: "0 \<le> CELL_SIZE sampleConstants \<and> 0 \<le> BOARD_HEIGHT sampleConstants \<and>
          (\<forall>s\<in>set (nextStackedKana ?acc). ky s \<le> BOARD_HEIGHT sampleConstants)"
    by (simp add: fallStart_def sampleGame_def sampleKana_def sampleConstants_def)
  have lands: "landsDuring sampleConstants 7 ?prev [] ?grp []"
    by (simp add: landsDuring_def stackBefore_def fallGroups_def fallStart_def collision_def
      topOfStack_def currentSpeedOf_def groupsOf_def groupKey_def truthyS_def ownKeysOrder_def
      isArrayIndex_def isDigit_def sampleGame_def sampleKana_def sampleFragment_def
      sampleConstants_def)
  have lrow: "landingRow sampleConstants 7 ?prev [] ?grp = 101"
    by (simp add: landingRow_def minTargetY_def stackBefore_def fallGroups_def fallStart_def
      topOfStack_def sampleGame_def sampleKana_def sampleFragment_def sampleConstants_def)
  note th = C3_group_lands_at_uniform_row [where ?k0.0 = "sampleFragment ''f1'' ''neko'' ''g1'' 1 3 1 100"
      and grp = ?grp and C = sampleConstants and acc = ?acc and v = 2 and bp = 7 and rest = "[]"
      and prev = ?prev and pre = "[]" and g = ?grp and post = "[]"]
  from th k0 hit sane have row: "minTargetY sampleConstants (nextStackedKana ?acc) ?grp =
      uniformRow sampleConstants (nextStackedKana ?acc) ?grp" by blast
  have u: "uniformRow sampleConstants (nextStackedKana ?acc) ?grp = 101"
    by (simp add: fallStart_def sampleGame_def uniformRow_def topOfStack_def sampleKana_def
        sampleFragment_def sampleConstants_def)
  from th k0 hit have e: "nextStackedKana (fallGroup sampleConstants 2 7 ?acc ?grp) =
           nextStackedKana ?acc @
           map (landed (minTargetY sampleConstants (nextStackedKana ?acc) ?grp) 7) ?grp"
    by blast
  have rows: "map ky (nextStackedKana (fallGroup sampleConstants 2 7 ?acc ?grp)) = [161, 101, 101, 101]"
    unfolding e row u
    by (simp add: fallStart_def sampleGame_def landed_def sampleKana_def)
  from th lands have "\<exists>d\<ge>0. \<forall>k\<in>set ?grp.
         (landed (landingRow sampleConstants 7 ?prev [] ?grp) 7 k)
            \<lparr>ky := landingRow sampleConstants 7 ?prev [] ?grp + d\<rparr>
           \<in> set (stackedKana (physics sampleConstants 7 ?prev))"
    by blast
  then have grav: "\<exists>d\<ge>0. list_all (\<lambda>k. (landed 101 7 k)\<lparr>ky := 101 + d\<rparr>
        \<in> set (stackedKana (physics sampleConstants 7 ?prev))) ?grp"
    unfolding lrow list_all_iff .
  from lands rows grav show ?thesis by blast
qed

section \<open>Properties of landing: game over and streak\<close>

lemma landsDuring_reset:
  assumes "landsDuring C bp prev pre g post"
  shows "streakReset (fallGroups C (currentSpeedOf C prev) bp (fallStart prev)
           (map snd (groupsOf (activeKana prev))))"
proof -
  let ?v = "currentSpeedOf C prev"
  let ?acc = "fallGroups C ?v bp (fallStart prev) pre"
  from assms have g: "map snd (groupsOf (activeKana prev)) = pre @ g # post"
    and c: "collision C ?v (nextStackedKana ?acc) g"
    by (simp_all add: landsDuring_def stackBefore_def)
  have "streakReset (fallGroup C ?v bp ?acc g)" using c by (simp add: fallGroup_reset)
  then have "streakReset (fallGroups C ?v bp (fallGroup C ?v bp ?acc g) post)"
    by (rule fallGroups_reset_mono)
  then show ?thesis by (simp only: g fallGroups_append)
qed

lemma landsDuring_over:
  assumes "landsDuring C bp prev pre g post" and "landingRow C bp prev pre g \<le> 0"
  shows "triggeredGameOver (fallGroups C (currentSpeedOf C prev) bp (fallStart prev)
           (map snd (groupsOf (activeKana prev))))"
proof -
  let ?v = "currentSpeedOf C prev"
  let ?acc = "fallGroups C ?v bp (fallStart prev) pre"
  from assms have g: "map snd (groupsOf (activeKana prev)) = pre @ g # post"
    and c: "collision C ?v (nextStackedKana ?acc) g"
    and r: "minTargetY C (nextStackedKana ?acc) g \<le> 0"
    by (simp_all add: landsDuring_def stackBefore_def landingRow_def)
  have "triggeredGameOver (fallGroup C ?v bp ?acc g)" using c r by (simp add: fallGroup_over)
  then have "triggeredGameOver (fallGroups C ?v bp (fallGroup C ?v bp ?acc g) post)"
    by (rule fallGroups_over_mono)
  then show ?thesis by (simp only: g fallGroups_append)
qed

lemma physics_streak:
  "streak (physics C bp prev) =
     (if streakReset (fallGroups C (currentSpeedOf C prev) bp (fallStart prev)
           (map snd (groupsOf (activeKana prev)))) then 0 else streak prev)"
  by (simp add: physics_def Let_def)

lemma physics_over:
  "isGameOver (physics C bp prev) =
     triggeredGameOver (fallGroups C (currentSpeedOf C prev) bp (fallStart prev)
           (map snd (groupsOf (activeKana prev))))"
  "isActive (physics C bp prev) =
     (\<not> triggeredGameOver (fallGroups C (currentSpeedOf C prev) bp (fallStart prev)
           (map snd (groupsOf (activeKana prev)))))"
  by (simp_all add: physics_def Let_def)

lemma tick_physics:
  assumes "tickRuns (refs a) (gameState a) now"
    and "afterSpawn C s rnd time a = (r1, gs1, None)"
  shows "gameState (tick C s rnd time now a) = physics C (blocksProcessed r1) gs1"
proof -
  from assms(1) obtain l where l: "lastTime (refs a) = Some l" "l \<noteq> 0"
    by (auto simp: tickRuns_def)
  from assms(1) have g: "isActive (gameState a)" "\<not> isGameOver (gameState a)"
    "\<not> isPaused (gameState a)"
    "\<not> (frozenUntil (gameState a) \<noteq> 0 \<and> now < frozenUntil (gameState a))"
    by (simp_all add: tickRuns_def)
  from assms(2) l have sp: "spawnPhase C (wordSRS a) s rnd (time - l)
       ((refs a)\<lparr>lastTime := Some time\<rparr>) (gameState a) = (r1, gs1, None)"
    by (simp add: afterSpawn_def)
  show ?thesis using l g sp by (auto simp: tick_def update_def Let_def)
qed

lemma tick_gameover: "isGameOver (gameState a) \<Longrightarrow> gameState (tick C s rnd t now a) = gameState a"
  by (simp add: tick_def update_def Let_def split: option.splits)

lemma processInput_flags:
  "isGameOver (gameState (processInput C s val now a)) = isGameOver (gameState a)"
  by (simp add: processInput_def Let_def split: option.splits)

lemma step_keeps_gameover:
  assumes "isGameOver (gameState a)" and "\<not> isStartGame e"
  shows "isGameOver (gameState (step C s a e))"
proof (cases e)
  case (Tick rnd t now)
  then show ?thesis using assms(1) by (simp add: tick_gameover)
next
  case (Input val now)
  then show ?thesis using assms(1) by (simp add: processInput_flags)
qed (use assms in \<open>simp_all add: stopGame_def togglePause_def spacePause_def flipPause_def
      setPaused_def handleWordClick_def hiraganaToggle_def katakanaToggle_def wordsToggle_def
      freezeAbility_def Let_def\<close>)

lemma run_keeps_gameover:
  assumes "isGameOver (gameState a)" and "list_all (\<lambda>e. \<not> isStartGame e) evs"
  shows "isGameOver (gameState (run C s a evs))"
  using assms unfolding run_def
proof (induction evs arbitrary: a)
  case Nil
  then show ?case by simp
next
  case (Cons e evs)
  then have "isGameOver (gameState (step C s a e))" by (simp add: step_keeps_gameover)
  with Cons show ?case by simp
qed

text \<open>
  C6. Whenever a group lands in the fall step with a computed landing row at or above the
  top of the board (row at most 0), the state that the updater returns has Game-Over set and
  is no longer active; this is what a tick that passes the guards of \<^verbatim>\<open>update\<close>
  writes. From a state with Game-Over set, whatever handlers run other than the start of a
  new game, Game-Over stays set and a tick leaves the whole game state, and so the falling
  blocks, as they are.
\<close>

theorem C6_game_over_halts_ticks:
  "(landsDuring C bp prev pre g post \<and> landingRow C bp prev pre g \<le> 0
      \<longrightarrow> isGameOver (physics C bp prev) \<and> \<not> isActive (physics C bp prev)) \<and>
   (tickRuns (refs a) (gameState a) now \<and> afterSpawn C s rnd time a = (r1, gs1, None) \<and>
    landsDuring C (blocksProcessed r1) gs1 pre1 g1 post1 \<and>
    landingRow C (blocksProcessed r1) gs1 pre1 g1 \<le> 0
      \<longrightarrow> isGameOver (gameState (tick C s rnd time now a)) \<and>
          \<not> isActive (gameState (tick C s rnd time now a))) \<and>
   (isGameOver (gameState a') \<and> list_all (\<lambda>e. \<not> isStartGame e) evs
      \<longrightarrow> isGameOver (gameState (run C s a' evs)) \<and>
          gameState (tick C s rnd' time' now' (run C s a' evs)) = gameState (run C s a' evs) \<and>
          activeKana (gameState (tick C s rnd' time' now' (run C s a' evs))) =
            activeKana (gameState (run C s a' evs)))"
proof (intro conjI impI)
  assume h: "landsDuring C bp prev pre g post \<and> landingRow C bp prev pre g \<le> 0"
  then have t: "triggeredGameOver (fallGroups C (currentSpeedOf C prev) bp (fallStart prev)
           (map snd (groupsOf (activeKana prev))))"
    by (auto intro: landsDuring_over)
  from t show "isGameOver (physics C bp prev)" by (simp add: physics_over)
  from t show "\<not> isActive (physics C bp prev)" by (simp add: physics_over)
next
  assume h: "tickRuns (refs a) (gameState a) now \<and> afterSpawn C s rnd time a = (r1, gs1, None) \<and>
    landsDuring C (blocksProcessed r1) gs1 pre1 g1 post1 \<and>
    landingRow C (blocksProcessed r1) gs1 pre1 g1 \<le> 0"
  then have e: "gameState (tick C s rnd time now a) = physics C (blocksProcessed r1) gs1"
    by (auto intro: tick_physics)
  from h have t: "triggeredGameOver (fallGroups C (currentSpeedOf C gs1) (blocksProcessed r1)
           (fallStart gs1) (map snd (groupsOf (activeKana gs1))))"
    by (auto intro: landsDuring_over)
  from t show "isGameOver (gameState (tick C s rnd time now a))" by (simp add: e physics_over)
  from t show "\<not> isActive (gameState (tick C s rnd time now a))" by (simp add: e physics_over)
next
  assume h: "isGameOver (gameState a') \<and> list_all (\<lambda>e. \<not> isStartGame e) evs"
  then show o: "isGameOver (gameState (run C s a' evs))" by (simp add: run_keeps_gameover)
  then show "gameState (tick C s rnd' time' now' (run C s a' evs)) = gameState (run C s a' evs)"
    by (rule tick_gameover)
  then show "activeKana (gameState (tick C s rnd' time' now' (run C s a' evs))) =
            activeKana (gameState (run C s a' evs))" by simp
qed

lemma hasId_member: "m \<in> set ks \<Longrightarrow> hasId (kid m) ks"
  by (auto simp: hasId_def list_ex_iff)

lemma hasId_distinct:
  assumes "distinct (map kid (active @ stacked))" and "m \<in> set stacked"
  shows "\<not> hasId (kid m) active"
  using assms by (auto simp: hasId_def list_ex_iff)

lemma processInput_streak:
  assumes "findMatch (activeKana (gameState a) @ stackedKana (gameState a)) val = Some m"
  shows "streak (gameState (processInput C s val now a)) =
     (if hasId (kid m) (activeKana (gameState a)) then streak (gameState a) + 1
      else streak (gameState a))"
  using assms by (simp add: processInput_def Let_def)

text \<open>
  C5. The streak is 0 after the updater of a tick in which a group lands, and so after a
  tick that passes the guards of \<^verbatim>\<open>update\<close> and in which a group lands. A clear whose
  primary match is one of the falling blocks adds exactly 1 to the streak. A clear whose
  primary match is one of the stacked blocks leaves the streak unchanged, the identifiers
  of the blocks on the board being distinct.
\<close>

theorem C5_streak_accounting:
  "(landsDuring C bp prev pre g post \<longrightarrow> streak (physics C bp prev) = 0) \<and>
   (tickRuns (refs a) (gameState a) now \<and> afterSpawn C s rnd time a = (r1, gs1, None) \<and>
    landsDuring C (blocksProcessed r1) gs1 pre1 g1 post1
      \<longrightarrow> streak (gameState (tick C s rnd time now a)) = 0) \<and>
   (findMatch (activeKana (gameState b) @ stackedKana (gameState b)) val = Some m \<and>
    m \<in> set (activeKana (gameState b))
      \<longrightarrow> streak (gameState (processInput C s val now' b)) = streak (gameState b) + 1) \<and>
   (findMatch (activeKana (gameState b) @ stackedKana (gameState b)) val = Some m \<and>
    m \<in> set (stackedKana (gameState b)) \<and>
    distinct (map kid (activeKana (gameState b) @ stackedKana (gameState b)))
      \<longrightarrow> streak (gameState (processInput C s val now' b)) = streak (gameState b))"
proof (intro conjI impI)
  assume "landsDuring C bp prev pre g post"
  then have "streakReset (fallGroups C (currentSpeedOf C prev) bp (fallStart prev)
           (map snd (groupsOf (activeKana prev))))"
    by (rule landsDuring_reset)
  then show "streak (physics C bp prev) = 0"
    by (simp add: physics_streak)
next
  assume h: "tickRuns (refs a) (gameState a) now \<and> afterSpawn C s rnd time a = (r1, gs1, None) \<and>
    landsDuring C (blocksProcessed r1) gs1 pre1 g1 post1"
  then have e: "gameState (tick C s rnd time now a) = physics C (blocksProcessed r1) gs1"
    by (auto intro: tick_physics)
  from h have "streakReset (fallGroups C (currentSpeedOf C gs1) (blocksProcessed r1)
           (fallStart gs1) (map snd (groupsOf (activeKana gs1))))"
    by (auto intro: landsDuring_reset)
  then show "streak (gameState (tick C s rnd time now a)) = 0"
    by (simp add: e physics_streak)
next
  assume h: "findMatch (activeKana (gameState b) @ stackedKana (gameState b)) val = Some m \<and>
    m \<in> set (activeKana (gameState b))"
  then show "streak (gameState (processInput C s val now' b)) = streak (gameState b) + 1"
    by (simp add: processInput_streak hasId_member)
next
  assume h: "findMatch (activeKana (gameState b) @ stackedKana (gameState b)) val = Some m \<and>
    m \<in> set (stackedKana (gameState b)) \<and>
    distinct (map kid (activeKana (gameState b) @ stackedKana (gameState b)))"
  then have "distinct (map kid (activeKana (gameState b) @ stackedKana (gameState b)))"
    and "m \<in> set (stackedKana (gameState b))" by blast+
  then have "\<not> hasId (kid m) (activeKana (gameState b))"
    by (rule hasId_distinct)
  with h show "streak (gameState (processInput C s val now' b)) = streak (gameState b)"
    by (simp add: processInput_streak)
qed

lemma sample_afterSpawn:
  "afterSpawn sampleConstants 1 sampleRandom 1016
     (sampleApp hiragana [sampleKana ''a1'' 0 (- 60)] [sampleKana ''s0'' 0 0]) =
   (\<lparr>lastTime = Some 1016, spawnTimer = 16, blocksProcessed = 7\<rparr>,
    sampleGame hiragana [sampleKana ''a1'' 0 (- 60)] [sampleKana ''s0'' 0 0], None)"
  by (simp add: afterSpawn_def spawnPhase_def sampleApp_def sampleGame_def sampleConstants_def
      Let_def)

lemma sample_tickRuns:
  "tickRuns (refs (sampleApp hiragana [sampleKana ''a1'' 0 (- 60)] [sampleKana ''s0'' 0 0]))
     (gameState (sampleApp hiragana [sampleKana ''a1'' 0 (- 60)] [sampleKana ''s0'' 0 0])) 5000"
  by (simp add: tickRuns_def sampleApp_def sampleGame_def)

lemma sample_landsDuring:
  "landsDuring sampleConstants 7
     (sampleGame hiragana [sampleKana ''a1'' 0 (- 60)] [sampleKana ''s0'' 0 0])
     [] [sampleKana ''a1'' 0 (- 60)] []"
  by (simp add: landsDuring_def stackBefore_def fallGroups_def fallStart_def collision_def
      topOfStack_def currentSpeedOf_def groupsOf_def groupKey_def truthyS_def ownKeysOrder_def
      isArrayIndex_def isDigit_def sampleGame_def sampleKana_def sampleConstants_def)

lemma sample_landingRow:
  "landingRow sampleConstants 7
     (sampleGame hiragana [sampleKana ''a1'' 0 (- 60)] [sampleKana ''s0'' 0 0])
     [] [sampleKana ''a1'' 0 (- 60)] \<le> 0"
  by (simp add: landingRow_def minTargetY_def stackBefore_def fallGroups_def fallStart_def
      topOfStack_def sampleGame_def sampleKana_def sampleConstants_def)

lemma sample_over_state:
  "isGameOver (gameState ((sampleApp hiragana [sampleKana ''a1'' 0 (- 60)] [])
     \<lparr>gameState := (sampleGame hiragana [sampleKana ''a1'' 0 (- 60)] [])\<lparr>isGameOver := True\<rparr>\<rparr>))"
  by simp

theorem C6_game_over_halts_ticks_witness:
  "isGameOver (gameState (tick sampleConstants 1 sampleRandom 1016 5000
      (sampleApp hiragana [sampleKana ''a1'' 0 (- 60)] [sampleKana ''s0'' 0 0]))) \<and>
   activeKana (gameState (tick sampleConstants 1 sampleRandom 1032 5016
      (run sampleConstants 1
         ((sampleApp hiragana [sampleKana ''a1'' 0 (- 60)] [])
            \<lparr>gameState := (sampleGame hiragana [sampleKana ''a1'' 0 (- 60)] [])\<lparr>isGameOver := True\<rparr>\<rparr>)
         [TogglePause, CloseMnemonic]))) =
   activeKana (gameState (run sampleConstants 1
         ((sampleApp hiragana [sampleKana ''a1'' 0 (- 60)] [])
            \<lparr>gameState := (sampleGame hiragana [sampleKana ''a1'' 0 (- 60)] [])\<lparr>isGameOver := True\<rparr>\<rparr>)
         [TogglePause, CloseMnemonic]))"
proof -
  let ?a = "sampleApp hiragana [sampleKana ''a1'' 0 (- 60)] [sampleKana ''s0'' 0 0]"
  let ?o = "(sampleApp hiragana [sampleKana ''a1'' 0 (- 60)] [])
            \<lparr>gameState := (sampleGame hiragana [sampleKana ''a1'' 0 (- 60)] [])\<lparr>isGameOver := True\<rparr>\<rparr>"
  have evs: "list_all (\<lambda>e. \<not> isStartGame e) [TogglePause, CloseMnemonic]" by simp
  note th = C6_game_over_halts_ticks [where C = sampleConstants and a = ?a and now = 5000
      and s = 1 and rnd = sampleRandom and time = 1016
      and ?r1.0 = "\<lparr>lastTime = Some 1016, spawnTimer = 16, blocksProcessed = 7\<rparr>"
      and ?gs1.0 = "sampleGame hiragana [sampleKana ''a1'' 0 (- 60)] [sampleKana ''s0'' 0 0]"
      and ?pre1.0 = "[]" and ?g1.0 = "[sampleKana ''a1'' 0 (- 60)]" and ?post1.0 = "[]"
      and a' = ?o and evs = "[TogglePause, CloseMnemonic]" and rnd' = sampleRandom
      and time' = 1032 and now' = 5016]
  have c1: "isGameOver (gameState (tick sampleConstants 1 sampleRandom 1016 5000 ?a))"
    using th sample_tickRuns sample_afterSpawn sample_landsDuring sample_landingRow
    by simp
  have c2: "activeKana (gameState (tick sampleConstants 1 sampleRandom 1032 5016
      (run sampleConstants 1 ?o [TogglePause, CloseMnemonic]))) =
      activeKana (gameState (run sampleConstants 1 ?o [TogglePause, CloseMnemonic]))"
    using th sample_over_state evs by blast
  from c1 c2 show ?thesis by (rule conjI)
qed

lemma sample_match_air:
  "findMatch (activeKana (gameState (sampleApp hiragana [sampleKana ''a1'' 0 (- 60)] [sampleKana ''s0'' 0 0])) @
              stackedKana (gameState (sampleApp hiragana [sampleKana ''a1'' 0 (- 60)] [sampleKana ''s0'' 0 0])))
     ''a'' = Some (sampleKana ''a1'' 0 (- 60))"
  by (simp add: findMatch_def sampleApp_def sampleGame_def sampleKana_def)

lemma sample_match_stacked:
  "findMatch (activeKana (gameState (sampleApp hiragana [] [sampleKana ''s0'' 0 0])) @
              stackedKana (gameState (sampleApp hiragana [] [sampleKana ''s0'' 0 0])))
     ''a'' = Some (sampleKana ''s0'' 0 0)"
  by (simp add: findMatch_def sampleApp_def sampleGame_def sampleKana_def)

theorem C5_streak_accounting_witness:
  "streak (gameState (tick sampleConstants 1 sampleRandom 1016 5000
      (sampleApp hiragana [sampleKana ''a1'' 0 (- 60)] [sampleKana ''s0'' 0 0]))) = 0 \<and>
   streak (gameState (processInput sampleConstants 1 ''a'' 5000
      (sampleApp hiragana [sampleKana ''a1'' 0 (- 60)] [sampleKana ''s0'' 0 0]))) = 4 \<and>
   streak (gameState (processInput sampleConstants 1 ''a'' 5000
      (sampleApp hiragana [] [sampleKana ''s0'' 0 0]))) = 3"
proof -
  let ?a = "sampleApp hiragana [sampleKana ''a1'' 0 (- 60)] [sampleKana ''s0'' 0 0]"
  let ?b = "sampleApp hiragana [] [sampleKana ''s0'' 0 0]"
  note th1 = C5_streak_accounting [where C = sampleConstants and a = ?a and now = 5000
      and s = 1 and rnd = sampleRandom and time = 1016
      and ?r1.0 = "\<lparr>lastTime = Some 1016, spawnTimer = 16, blocksProcessed = 7\<rparr>"
      and ?gs1.0 = "sampleGame hiragana [sampleKana ''a1'' 0 (- 60)] [sampleKana ''s0'' 0 0]"
      and ?pre1.0 = "[]" and ?g1.0 = "[sampleKana ''a1'' 0 (- 60)]" and ?post1.0 = "[]"
      and b = ?a and val = "''a''" and m = "sampleKana ''a1'' 0 (- 60)" and now' = 5000]
  note th2 = C5_streak_accounting [where C = sampleConstants and s = 1
      and b = ?b and val = "''a''" and m = "sampleKana ''s0'' 0 0" and now' = 5000]
  have c1: "streak (gameState (tick sampleConstants 1 sampleRandom 1016 5000 ?a)) = 0"
    using th1 sample_tickRuns sample_afterSpawn sample_landsDuring by simp
  have in_air: "sampleKana ''a1'' 0 (- 60) \<in> set (activeKana (gameState ?a))"
    by (simp add: sampleApp_def sampleGame_def)
  have s0: "streak (gameState ?a) = 3" "streak (gameState ?b) = 3"
    by (simp_all add: sampleApp_def sampleGame_def)
  have c2: "streak (gameState (processInput sampleConstants 1 ''a'' 5000 ?a)) = 4"
    using th1 sample_match_air in_air s0 by simp
  have in_stack: "sampleKana ''s0'' 0 0 \<in> set (stackedKana (gameState ?b))"
    and d: "distinct (map kid (activeKana (gameState ?b) @ stackedKana (gameState ?b)))"
    by (simp_all add: sampleApp_def sampleGame_def)
  have c3: "streak (gameState (processInput sampleConstants 1 ''a'' 5000 ?b)) = 3"
    using th2 sample_match_stacked in_stack d s0 by simp
  from c1 c2 c3 show ?thesis by simp
qed

section \<open>No handler writes the hint count\<close>

lemma hintFree_append [simp]: "hintFree (xs @ ys) = (hintFree xs \<and> hintFree ys)"
  by (simp add: hintFree_def)

lemma hintFree_Nil [simp]: "hintFree []"
  by (simp add: hintFree_def)

lemma hintFree_groups: "hintFree ks \<Longrightarrow> e \<in> set (groupsOf ks) \<Longrightarrow> hintFree (snd e)"
  by (auto simp: hintFree_def list_all_iff dest: groupsOf_members)

lemma hintFree_landed: "hintFree grp \<Longrightarrow> hintFree (map (landed y bp) grp)"
  by (simp add: hintFree_def list_all_iff landed_def)

lemma hintFree_moved: "hintFree grp \<Longrightarrow> hintFree (map (\<lambda>kana. kana\<lparr>ky := f kana\<rparr>) grp)"
  by (simp add: hintFree_def list_all_iff)

lemma hintFree_filter: "hintFree ks \<Longrightarrow> hintFree (filter P ks)"
  by (simp add: hintFree_def list_all_iff)

lemma fallGroup_free:
  assumes "hintFree grp" and "hintFree (nextActiveKana acc)" and "hintFree (nextStackedKana acc)"
  shows "hintFree (nextActiveKana (fallGroup C v bp acc grp)) \<and>
         hintFree (nextStackedKana (fallGroup C v bp acc grp))"
  using assms by (simp add: fallGroup_active fallGroup_stacked hintFree_landed hintFree_moved)

lemma fallGroups_free:
  assumes "\<forall>g\<in>set gs. hintFree g" and "hintFree (nextActiveKana acc)"
    and "hintFree (nextStackedKana acc)"
  shows "hintFree (nextActiveKana (fallGroups C v bp acc gs)) \<and>
         hintFree (nextStackedKana (fallGroups C v bp acc gs))"
  using assms unfolding fallGroups_def
proof (induction gs arbitrary: acc)
  case Nil
  then show ?case by simp
next
  case (Cons g gs)
  have "hintFree (nextActiveKana (fallGroup C v bp acc g)) \<and>
        hintFree (nextStackedKana (fallGroup C v bp acc g))"
    using Cons.prems by (intro fallGroup_free) simp_all
  with Cons.IH [of "fallGroup C v bp acc g"] Cons.prems(1) show ?case by simp
qed

lemma gravityGroup_free:
  assumes "hintFree (fst acc)" and "hintFree (snd e)"
  shows "hintFree (fst (gravityGroup C v acc e))"
  using assms by (simp add: gravityGroup_def Let_def hintFree_moved)

lemma foldl_gravityGroup_free:
  assumes "\<forall>e\<in>set es. hintFree (snd e)" and "hintFree (fst acc)"
  shows "hintFree (fst (foldl (gravityGroup C v) acc es))"
  using assms
proof (induction es arbitrary: acc)
  case Nil
  then show ?case by simp
next
  case (Cons e es)
  have "hintFree (fst (gravityGroup C v acc e))"
    using Cons.prems by (intro gravityGroup_free) simp_all
  with Cons.IH [of "gravityGroup C v acc e"] Cons.prems(1) show ?case by simp
qed

lemma gravity_free: "hintFree st \<Longrightarrow> hintFree (gravity C v st)"
  unfolding gravity_def
  by (rule foldl_gravityGroup_free) (auto simp: sortedGroups_def intro: hintFree_groups)

lemma physics_free:
  assumes "hintFree (activeKana prev)" and "hintFree (stackedKana prev)"
  shows "hintFree (activeKana (physics C bp prev)) \<and> hintFree (stackedKana (physics C bp prev))"
proof -
  let ?acc = "fallGroups C (currentSpeedOf C prev) bp (fallStart prev)
                (map snd (groupsOf (activeKana prev)))"
  have g: "\<forall>g\<in>set (map snd (groupsOf (activeKana prev))). hintFree g"
    using assms(1) by (auto intro: hintFree_groups)
  have "hintFree (nextActiveKana ?acc) \<and> hintFree (nextStackedKana ?acc)"
    using g assms(2) by (intro fallGroups_free) (simp_all add: fallStart_def)
  then show ?thesis by (simp add: physics_def Let_def gravity_free)
qed

lemma newKanaList_free: "hintFree (newKanaList C rnd isWord e start chars)"
  by (simp add: hintFree_def list_all_iff newKanaList_def newKana_def split_beta)

lemma spawnKana_free:
  assumes "hintFree (activeKana gs)" and "hintFree (stackedKana gs)"
  shows "hintFree (activeKana (fst (spawnKana C srs s rnd gs))) \<and>
         hintFree (stackedKana (fst (spawnKana C srs s rnd gs)))"
  using assms by (simp add: spawnKana_def Let_def newKanaList_free split: option.splits)

lemma spawnPhase_free:
  assumes "hintFree (activeKana gs)" and "hintFree (stackedKana gs)"
  shows "hintFree (activeKana (fst (snd (spawnPhase C srs s rnd dt r gs)))) \<and>
         hintFree (stackedKana (fst (snd (spawnPhase C srs s rnd dt r gs))))"
proof -
  let ?gs1 = "if isFreezeAbilityActive gs then gs\<lparr>isFreezeAbilityActive := False\<rparr> else gs"
  have a: "hintFree (activeKana ?gs1)" "hintFree (stackedKana ?gs1)" using assms by simp_all
  have b: "hintFree (activeKana (fst (spawnKana C srs s rnd ?gs1))) \<and>
           hintFree (stackedKana (fst (spawnKana C srs s rnd ?gs1)))"
    using a by (rule spawnKana_free)
  show ?thesis
    using a b by (cases "spawnKana C srs s rnd ?gs1")
      (auto simp: spawnPhase_def Let_def split: option.splits)
qed

lemma update_free:
  assumes "hintFree (activeKana gs)" and "hintFree (stackedKana gs)"
  shows "hintFree (activeKana (fst (snd (update C srs s rnd t now r gs)))) \<and>
         hintFree (stackedKana (fst (snd (update C srs s rnd t now r gs))))"
proof (cases "lastTime r")
  case None
  then show ?thesis using assms by (simp add: update_def)
next
  case (Some l)
  let ?sp = "spawnPhase C srs s rnd (t - l) (r\<lparr>lastTime := Some t\<rparr>) gs"
  obtain r1 gs1 err where sp: "?sp = (r1, gs1, err)" by (cases ?sp) auto
  have f: "hintFree (activeKana gs1) \<and> hintFree (stackedKana gs1)"
    using spawnPhase_free [OF assms, of C srs s rnd "t - l" "r\<lparr>lastTime := Some t\<rparr>"] sp by simp
  then have p: "hintFree (activeKana (physics C (blocksProcessed r1) gs1)) \<and>
                hintFree (stackedKana (physics C (blocksProcessed r1) gs1))"
    by (simp add: physics_free)
  show ?thesis
    using Some assms sp f p by (cases err) (simp_all add: update_def Let_def)
qed

lemma findMatch_member: "findMatch ks val = Some m \<Longrightarrow> m \<in> set ks"
  by (auto simp: findMatch_def find_Some_iff split: option.splits)

lemma processInput_free:
  assumes "hintFree (board a)"
  shows "hintFree (board (processInput C s val now a))"
  using assms
  by (auto simp: processInput_def board_def Let_def hintFree_filter split: option.splits)

lemma tick_free:
  assumes "hintFree (board a)"
  shows "hintFree (board (tick C s rnd t now a))"
  using assms update_free [of "gameState a" C "wordSRS a" s rnd t now "refs a"]
  by (simp add: tick_def board_def Let_def)

lemma step_free:
  assumes "hintFree (board a)"
  shows "hintFree (board (step C s a e))"
proof (cases e)
  case (Tick rnd t now)
  then show ?thesis using assms by (simp add: tick_free)
next
  case (Input val now)
  then show ?thesis using assms by (simp add: processInput_free)
qed (use assms in \<open>simp_all add: board_def startGame_def stopGame_def togglePause_def
      spacePause_def flipPause_def setPaused_def handleWordClick_def hiraganaToggle_def
      katakanaToggle_def wordsToggle_def freezeAbility_def Let_def\<close>)

lemma run_free:
  assumes "hintFree (board a)"
  shows "hintFree (board (run C s a evs))"
  using assms unfolding run_def
proof (induction evs arbitrary: a)
  case Nil
  then show ?case by simp
next
  case (Cons e evs)
  then show ?case by (simp add: step_free)
qed

lemma initialApp_free: "hintFree (board (initialApp m srs))"
  by (simp add: board_def initialApp_def initialGameState_def)

lemma reachable_free: "hintFree (board (run C s (initialApp m srs) evs))"
  by (rule run_free) (rule initialApp_free)

lemma classify_hintless:
  "hintCount k = None \<Longrightarrow> classifyConfidence p st k = elapsedConfidence p st k"
  by (simp add: classifyConfidence_def elapsedConfidence_def landedAt_def Let_def)


text \<open>
  C10. In every state that the component reaches from its initial state by any sequence of
  its handlers (start and stop of a game, pauses, ticks with their spawn, landing and
  gravity, inputs with their clears, mode switches, the freeze ability), every block on the
  board has no hint count. Hence the two hint branches of the classification are never
  taken for a block of the board, and its confidence is a function of the stacked status
  and of the counter elapsed since landing only.
\<close>

theorem C10_hint_count_never_written:
  "hintFree (board (run C s (initialApp m0 srs0) evs)) \<and>
   (\<forall>k\<in>set (board (run C s (initialApp m0 srs0) evs)).
      hintCount k = None \<and> hintUses k = 0 \<and>
      classifyConfidence p st k = elapsedConfidence p st k)"
proof -
  have f: "hintFree (board (run C s (initialApp m0 srs0) evs))" by (rule reachable_free)
  then have "\<forall>k\<in>set (board (run C s (initialApp m0 srs0) evs)). hintCount k = None"
    by (simp add: hintFree_def list_all_iff)
  with f show ?thesis by (auto simp: hintUses_def classify_hintless)
qed

lemma sample_run_board:
  "map kid (board (run sampleConstants 1 (initialApp hiragana Map.empty)
     [StartGame hiragana normal, Tick sampleRandom 1000 5000, Tick sampleRandom 4000 8000])) = [''k'']"
  by (simp add: run_def startGame_def initialApp_def initialGameState_def tick_def update_def
      spawnPhase_def spawnKana_def pick_def candidateList_def textToDisplay_def kanaEntry_def
      hasCollision_def startColumnOf_def newKanaList_def newKana_def physics_def
      currentSpeedOf_def fallGroups_def fallGroup_def fallStart_def collision_def topOfStack_def
      groupsOf_def groupKey_def truthyS_def ownKeysOrder_def isArrayIndex_def isDigit_def
      gravity_def sortedGroups_def board_def sampleConstants_def sampleRandom_def Let_def)

theorem C10_hint_count_never_written_witness:
  "hintFree (board (run sampleConstants 1 (initialApp hiragana Map.empty)
     [StartGame hiragana normal, Tick sampleRandom 1000 5000, Tick sampleRandom 4000 8000])) \<and>
   map kid (board (run sampleConstants 1 (initialApp hiragana Map.empty)
     [StartGame hiragana normal, Tick sampleRandom 1000 5000, Tick sampleRandom 4000 8000])) = [''k'']"
  using C10_hint_count_never_written [of sampleConstants 1 hiragana Map.empty
      "[StartGame hiragana normal, Tick sampleRandom 1000 5000, Tick sampleRandom 4000 8000]"]
    sample_run_board
  by blast

section \<open>Properties of the confidence classification\<close>












section \<open>Properties of the vocabulary clear\<close>

lemma chainGroup_step:
  "chainGroup allV m acc g =
     (if Some g = wordGroupId m then acc
      else (fst acc @ map kid (filter (\<lambda>k. wordGroupId k = Some g) allV),
            snd acc @ map (explosionAt None) (filter (\<lambda>k. wordGroupId k = Some g) allV)))"
  by (simp add: chainGroup_def Let_def)

lemma foldl_chainGroup:
  "foldl (chainGroup allV m) acc gs =
     (fst acc @ map kid (concat (map (\<lambda>g. filter (\<lambda>k. wordGroupId k = Some g) allV)
                                  (filter (\<lambda>g. Some g \<noteq> wordGroupId m) gs))),
      snd acc @ map (explosionAt None)
                  (concat (map (\<lambda>g. filter (\<lambda>k. wordGroupId k = Some g) allV)
                                  (filter (\<lambda>g. Some g \<noteq> wordGroupId m) gs))))"
proof (induction gs arbitrary: acc)
  case Nil
  then show ?case by simp
next
  case (Cons g gs)
  let ?rest = "concat (map (\<lambda>g. filter (\<lambda>k. wordGroupId k = Some g) allV)
                                  (filter (\<lambda>g. Some g \<noteq> wordGroupId m) gs))"
  have "foldl (chainGroup allV m) acc (g # gs) =
        foldl (chainGroup allV m) (chainGroup allV m acc g) gs" by simp
  also have "\<dots> = (fst (chainGroup allV m acc g) @ map kid ?rest,
                     snd (chainGroup allV m acc g) @ map (explosionAt None) ?rest)"
    by (rule Cons.IH)
  also have "\<dots> =
     (fst acc @ map kid (concat (map (\<lambda>g. filter (\<lambda>k. wordGroupId k = Some g) allV)
                                  (filter (\<lambda>g. Some g \<noteq> wordGroupId m) (g # gs)))),
      snd acc @ map (explosionAt None)
                  (concat (map (\<lambda>g. filter (\<lambda>k. wordGroupId k = Some g) allV)
                                  (filter (\<lambda>g. Some g \<noteq> wordGroupId m) (g # gs)))))"
    by (simp add: chainGroup_step)
  finally show ?case .
qed

lemma chainClear_eq:
  "chainClear allV m acc =
     (fst acc @ map kid (chainPart allV m), snd acc @ map (explosionAt None) (chainPart allV m))"
  by (simp add: chainClear_def chainPart_def foldl_chainGroup)

lemma explosionPos_at [simp]: "explosionPos (explosionAt t k) = blockPos k"
  by (simp add: explosionPos_def explosionAt_def blockPos_def)

lemma groupClear_ids: "fst (groupClear allV st m) = map kid (groupPart allV m)"
  by (simp add: groupClear_def groupPart_def Let_def)

lemma groupClear_pos:
  "map explosionPos (snd (groupClear allV st m)) = map blockPos (groupPart allV m)"
  by (simp add: groupClear_def groupPart_def Let_def comp_def)

lemma clearSet_vocab:
  assumes "ktype m = wordT" and "truthyS (wordId m)"
  shows "fst (clearSet C act st m) = map kid (clearedBlocks (act @ st) m)"
    and "map explosionPos (snd (clearSet C act st m)) = map blockPos (clearedBlocks (act @ st) m)"
  using assms
  by (simp_all add: clearSet_def Let_def chainClear_eq clearedBlocks_def groupClear_ids
      groupClear_pos comp_def)

lemma matchingGroups_set:
  "set (matchingGroups allV m) =
     {the (wordGroupId k) | k. k \<in> set allV \<and> wordId k = wordId m \<and> truthyS (wordGroupId k)}"
  by (auto simp: matchingGroups_def)

lemma truthyS_Some: "truthyS x \<Longrightarrow> x = Some (the x)"
  by (cases x) (simp_all add: truthyS_def)

lemma instance_cleared:
  assumes k: "k \<in> set allV" and w: "wordId k = wordId m" and t: "truthyS (wordGroupId k)"
    and k': "k' \<in> set allV" and g: "wordGroupId k' = wordGroupId k"
  shows "k' \<in> set (clearedBlocks allV m)"
proof (cases "wordGroupId k = wordGroupId m")
  case True
  then have "truthyS (wordGroupId m)" using t by simp
  then show ?thesis using True k' g by (simp add: clearedBlocks_def groupPart_def)
next
  case False
  let ?g = "the (wordGroupId k)"
  have s: "wordGroupId k = Some ?g" using t by (rule truthyS_Some)
  have "?g \<in> set (matchingGroups allV m)" using k w t by (auto simp: matchingGroups_set)
  moreover have "Some ?g \<noteq> wordGroupId m" using False s by simp
  moreover have "k' \<in> set (filter (\<lambda>x. wordGroupId x = Some ?g) allV)" using k' g s by simp
  ultimately have "k' \<in> set (chainPart allV m)" unfolding chainPart_def by auto
  then show ?thesis by (simp add: clearedBlocks_def)
qed

lemma distinct_concat_groups:
  assumes "distinct allV" and "distinct gs"
  shows "distinct (concat (map (\<lambda>g. filter (\<lambda>k. wordGroupId k = Some g) allV) gs))"
  using assms(2)
proof (induction gs)
  case Nil
  then show ?case by simp
next
  case (Cons g gs)
  have "set (filter (\<lambda>k. wordGroupId k = Some g) allV) \<inter>
        set (concat (map (\<lambda>g. filter (\<lambda>k. wordGroupId k = Some g) allV) gs)) = {}"
    using Cons.prems by auto
  with Cons assms(1) show ?case by simp
qed

lemma matchingGroups_distinct: "distinct (matchingGroups allV m)"
  by (simp add: matchingGroups_def)

lemma chainPart_props:
  assumes "k \<in> set (chainPart allV m)"
  shows "k \<in> set allV \<and> (\<exists>g. wordGroupId k = Some g \<and> Some g \<noteq> wordGroupId m)"
  using assms by (auto simp: chainPart_def)

lemma groupPart_props:
  assumes "k \<in> set (groupPart allV m)" and "m \<in> set allV"
  shows "k \<in> set allV \<and> (wordGroupId k = wordGroupId m)"
  using assms by (auto simp: groupPart_def split: if_splits)

lemma clearedBlocks_distinct:
  assumes d: "distinct allV" and m: "m \<in> set allV"
  shows "distinct (clearedBlocks allV m)"
proof -
  have a: "distinct (groupPart allV m)" using d by (simp add: groupPart_def)
  have b: "distinct (chainPart allV m)"
    unfolding chainPart_def
    by (rule distinct_concat_groups [OF d]) (simp add: matchingGroups_distinct)
  have c: "set (groupPart allV m) \<inter> set (chainPart allV m) = {}"
    using groupPart_props [OF _ m] chainPart_props by fastforce
  from a b c show ?thesis by (simp add: clearedBlocks_def)
qed

lemma clearedBlocks_subset:
  assumes "m \<in> set allV"
  shows "set (clearedBlocks allV m) \<subseteq> set allV"
  using groupPart_props [OF _ assms] chainPart_props
  by (auto simp: clearedBlocks_def)

lemma removed_set:
  assumes d: "distinct (map kid allV)" and s: "set ms \<subseteq> set allV"
  shows "set allV - set (filter (\<lambda>k. kid k \<notin> set (map kid ms)) allV) = set ms"
proof -
  have inj: "inj_on kid (set allV)" using d by (simp add: distinct_map)
  show ?thesis
  proof (intro set_eqI iffI)
    fix x
    assume "x \<in> set allV - set (filter (\<lambda>k. kid k \<notin> set (map kid ms)) allV)"
    then have x: "x \<in> set allV" and "kid x \<in> kid ` set ms" by auto
    then obtain y where y: "y \<in> set ms" "kid y = kid x" by auto
    with s have "y \<in> set allV" by auto
    with inj x y have "x = y" by (auto dest: inj_onD)
    with y show "x \<in> set ms" by simp
  next
    fix x
    assume "x \<in> set ms"
    with s show "x \<in> set allV - set (filter (\<lambda>k. kid k \<notin> set (map kid ms)) allV)" by auto
  qed
qed

lemma processInput_board:
  assumes "findMatch (board a) val = Some m"
  shows "board (processInput C s val now a) =
     filter (\<lambda>k. kid k \<notin> set (fst (clearSet C (activeKana (gameState a)) (stackedKana (gameState a)) m)))
       (board a)"
    and "explosions (gameState (processInput C s val now a)) =
     explosions (gameState a) @ snd (clearSet C (activeKana (gameState a)) (stackedKana (gameState a)) m)"
  using assms by (simp_all add: processInput_def board_def Let_def)

text \<open>
  C4. In a call of the resolver whose primary match is a vocabulary block of catalog item W:
  every on-board block (falling or stacked) that shares its group id with a block of item W
  carrying a group id, that is every fragment of every on-board instance of W and not only the
  matched group, is absent from the falling and the stacked blocks afterwards. The call
  appends to the explosions exactly one explosion for each block of the list
  \<open>clearedBlocks\<close>, at that block's position, and keeps the earlier ones; and, the block ids
  on the board being distinct, that list has no repetition and holds exactly the blocks that
  the call removed from the board. With two on-board instances of W the fragments of both are
  removed in the one call.
\<close>

theorem C4_vocabulary_chain_clear:
  "findMatch (board a) val = Some m \<and> ktype m = wordT \<and> truthyS (wordId m) \<longrightarrow>
     (\<forall>k\<in>set (board a). \<forall>k'\<in>set (board a).
        wordId k = wordId m \<and> truthyS (wordGroupId k) \<and> wordGroupId k' = wordGroupId k
        \<longrightarrow> k' \<notin> set (activeKana (gameState (processInput C s val now a))) \<and>
            k' \<notin> set (stackedKana (gameState (processInput C s val now a)))) \<and>
     map explosionPos (drop (length (explosions (gameState a)))
                          (explosions (gameState (processInput C s val now a)))) =
       map blockPos (clearedBlocks (board a) m) \<and>
     take (length (explosions (gameState a)))
          (explosions (gameState (processInput C s val now a))) = explosions (gameState a) \<and>
     (distinct (map kid (board a)) \<longrightarrow>
        distinct (clearedBlocks (board a) m) \<and>
        set (clearedBlocks (board a) m) =
          set (board a) - set (board (processInput C s val now a)))"
proof (intro impI)
  assume h: "findMatch (board a) val = Some m \<and> ktype m = wordT \<and> truthyS (wordId m)"
  then have f: "findMatch (board a) val = Some m" and v: "ktype m = wordT" "truthyS (wordId m)"
    by simp_all
  let ?a' = "processInput C s val now a"
  let ?cs = "clearSet C (activeKana (gameState a)) (stackedKana (gameState a)) m"
  have mem: "m \<in> set (board a)" using f by (rule findMatch_member)
  have ids: "fst ?cs = map kid (clearedBlocks (board a) m)"
    using clearSet_vocab(1) [OF v] by (simp add: board_def)
  have pos: "map explosionPos (snd ?cs) = map blockPos (clearedBlocks (board a) m)"
    using clearSet_vocab(2) [OF v] by (simp add: board_def)
  have bd: "board ?a' = filter (\<lambda>k. kid k \<notin> set (map kid (clearedBlocks (board a) m))) (board a)"
    using processInput_board(1) [OF f] ids by simp
  have ex: "explosions (gameState ?a') = explosions (gameState a) @ snd ?cs"
    using processInput_board(2) [OF f] .
  have p1: "\<forall>k\<in>set (board a). \<forall>k'\<in>set (board a).
        wordId k = wordId m \<and> truthyS (wordGroupId k) \<and> wordGroupId k' = wordGroupId k
        \<longrightarrow> k' \<notin> set (activeKana (gameState ?a')) \<and> k' \<notin> set (stackedKana (gameState ?a'))"
  proof (intro ballI impI)
    fix k k'
    assume k: "k \<in> set (board a)" and k': "k' \<in> set (board a)"
      and c: "wordId k = wordId m \<and> truthyS (wordGroupId k) \<and> wordGroupId k' = wordGroupId k"
    have "k' \<in> set (clearedBlocks (board a) m)"
      using instance_cleared [OF k _ _ k'] c by blast
    then have "k' \<notin> set (board ?a')" by (simp add: bd)
    then show "k' \<notin> set (activeKana (gameState ?a')) \<and> k' \<notin> set (stackedKana (gameState ?a'))"
      by (simp add: board_def)
  qed
  have p2: "map explosionPos (drop (length (explosions (gameState a))) (explosions (gameState ?a'))) =
       map blockPos (clearedBlocks (board a) m)"
    by (simp add: ex pos)
  have p3: "take (length (explosions (gameState a))) (explosions (gameState ?a')) =
      explosions (gameState a)"
    by (simp add: ex)
  have p4: "distinct (map kid (board a)) \<longrightarrow>
        distinct (clearedBlocks (board a) m) \<and>
        set (clearedBlocks (board a) m) = set (board a) - set (board ?a')"
  proof
    assume d: "distinct (map kid (board a))"
    then have da: "distinct (board a)" by (simp add: distinct_map)
    have "distinct (clearedBlocks (board a) m)" using da mem by (rule clearedBlocks_distinct)
    moreover have "set (board a) - set (board ?a') = set (clearedBlocks (board a) m)"
      unfolding bd by (rule removed_set [OF d clearedBlocks_subset [OF mem]])
    ultimately show "distinct (clearedBlocks (board a) m) \<and>
        set (clearedBlocks (board a) m) = set (board a) - set (board ?a')" by simp
  qed
  from p1 p2 p3 p4 show "(\<forall>k\<in>set (board a). \<forall>k'\<in>set (board a).
        wordId k = wordId m \<and> truthyS (wordGroupId k) \<and> wordGroupId k' = wordGroupId k
        \<longrightarrow> k' \<notin> set (activeKana (gameState ?a')) \<and> k' \<notin> set (stackedKana (gameState ?a'))) \<and>
     map explosionPos (drop (length (explosions (gameState a))) (explosions (gameState ?a'))) =
       map blockPos (clearedBlocks (board a) m) \<and>
     take (length (explosions (gameState a))) (explosions (gameState ?a')) = explosions (gameState a) \<and>
     (distinct (map kid (board a)) \<longrightarrow>
        distinct (clearedBlocks (board a) m) \<and>
        set (clearedBlocks (board a) m) = set (board a) - set (board ?a'))"
    by blast
qed

lemma sample_two_instances:
  "findMatch (board (sampleApp words
      [sampleFragment ''f0'' ''neko'' ''g1'' 0 2 0 100, sampleFragment ''f1'' ''neko'' ''g1'' 1 2 1 100]
      [sampleFragment ''s0'' ''neko'' ''g2'' 0 2 3 540, sampleFragment ''s1'' ''neko'' ''g2'' 1 2 4 540]))
     ''neko'' = Some (sampleFragment ''f0'' ''neko'' ''g1'' 0 2 0 100)"
  by (simp add: findMatch_def board_def sampleApp_def sampleGame_def sampleFragment_def)

lemma sample_two_cleared:
  "map blockPos (clearedBlocks (board (sampleApp words
      [sampleFragment ''f0'' ''neko'' ''g1'' 0 2 0 100, sampleFragment ''f1'' ''neko'' ''g1'' 1 2 1 100]
      [sampleFragment ''s0'' ''neko'' ''g2'' 0 2 3 540, sampleFragment ''s1'' ''neko'' ''g2'' 1 2 4 540]))
      (sampleFragment ''f0'' ''neko'' ''g1'' 0 2 0 100)) =
   [(0, 100), (60, 100), (180, 540), (240, 540)]"
  by (simp add: clearedBlocks_def groupPart_def chainPart_def matchingGroups_def blockPos_def
      truthyS_def board_def sampleApp_def sampleGame_def sampleFragment_def)

lemma sample_two_removed:
  "board (processInput sampleConstants 1 ''neko'' 5000 (sampleApp words
      [sampleFragment ''f0'' ''neko'' ''g1'' 0 2 0 100, sampleFragment ''f1'' ''neko'' ''g1'' 1 2 1 100]
      [sampleFragment ''s0'' ''neko'' ''g2'' 0 2 3 540, sampleFragment ''s1'' ''neko'' ''g2'' 1 2 4 540])) = []"
  by (simp add: processInput_def findMatch_def board_def clearSet_def groupClear_def
      chainClear_def chainGroup_def matchingGroups_def hasId_def truthyS_def Let_def
      sampleApp_def sampleGame_def sampleFragment_def)

theorem C4_vocabulary_chain_clear_witness:
  "board (processInput sampleConstants 1 ''neko'' 5000 (sampleApp words
      [sampleFragment ''f0'' ''neko'' ''g1'' 0 2 0 100, sampleFragment ''f1'' ''neko'' ''g1'' 1 2 1 100]
      [sampleFragment ''s0'' ''neko'' ''g2'' 0 2 3 540, sampleFragment ''s1'' ''neko'' ''g2'' 1 2 4 540])) = [] \<and>
   map explosionPos (explosions (gameState (processInput sampleConstants 1 ''neko'' 5000 (sampleApp words
      [sampleFragment ''f0'' ''neko'' ''g1'' 0 2 0 100, sampleFragment ''f1'' ''neko'' ''g1'' 1 2 1 100]
      [sampleFragment ''s0'' ''neko'' ''g2'' 0 2 3 540, sampleFragment ''s1'' ''neko'' ''g2'' 1 2 4 540])))) =
   [(0, 100), (60, 100), (180, 540), (240, 540)]"
proof -
  let ?a = "sampleApp words
      [sampleFragment ''f0'' ''neko'' ''g1'' 0 2 0 100, sampleFragment ''f1'' ''neko'' ''g1'' 1 2 1 100]
      [sampleFragment ''s0'' ''neko'' ''g2'' 0 2 3 540, sampleFragment ''s1'' ''neko'' ''g2'' 1 2 4 540]"
  let ?m = "sampleFragment ''f0'' ''neko'' ''g1'' 0 2 0 100"
  have v: "ktype ?m = wordT \<and> truthyS (wordId ?m)"
    by (simp add: sampleFragment_def truthyS_def)
  have e0: "explosions (gameState ?a) = []" by (simp add: sampleApp_def sampleGame_def)
  note th = C4_vocabulary_chain_clear [where a = ?a and val = "''neko''" and m = ?m
      and C = sampleConstants and s = 1 and now = 5000]
  from th sample_two_instances v
  have "map explosionPos (drop (length (explosions (gameState ?a)))
          (explosions (gameState (processInput sampleConstants 1 ''neko'' 5000 ?a)))) =
        map blockPos (clearedBlocks (board ?a) ?m)"
    by blast
  then have x: "map explosionPos (explosions (gameState (processInput sampleConstants 1 ''neko'' 5000 ?a))) =
        [(0, 100), (60, 100), (180, 540), (240, 540)]"
    unfolding e0 sample_two_cleared by simp
  from sample_two_removed x show ?thesis by (rule conjI)
qed

end
